theory Spec2Isabelle
  imports Main "HOL-Library.Word" "HOL-Library.Sublist"
begin

unbundle bit_operations_syntax

section \<open>The driver of the Waveshare 7.5 inch e-paper panel (package epd7in5)\<close>

text \<open>
  A shallow embedding of \<^verbatim>\<open>src/epd7in5/epd7in5.go\<close>. Go's \<^verbatim>\<open>byte\<close> is an 8-bit word,
  \<^verbatim>\<open>uint32\<close> a 32-bit word. Go's \<^verbatim>\<open>int\<close> (64 bits on the boards the package
  names) is modelled as \<open>int\<close>: every integer the driver computes is a loop counter
  or a buffer index below \<open>10\<^sup>6\<close> in magnitude for the geometry \<^verbatim>\<open>New\<close> sets, so no
  wrap-around can occur. All loop counters start at 0 and only grow, so Go's truncating
  \<^verbatim>\<open>/\<close> and \<^verbatim>\<open>%\<close> agree with \<open>div\<close> and \<open>mod\<close> on them.
\<close>

type_synonym byte = "8 word"
type_synonym uint32 = "32 word"

subsection \<open>Constants\<close>

definition Epd7in5V2Width :: int where "Epd7in5V2Width = 800"
definition Epd7in5V2Height :: int where "Epd7in5V2Height = 480"

definition PanelSetting :: byte where "PanelSetting = 0x00"
definition PowerSetting :: byte where "PowerSetting = 0x01"
definition PowerOff :: byte where "PowerOff = 0x02"
definition PowerOffSequenceSetting :: byte where "PowerOffSequenceSetting = 0x03"
definition DeepSleep :: byte where "DeepSleep = 0x07"
definition DataStartTransmission1 :: byte where "DataStartTransmission1 = 0x10"
definition DisplayRefresh :: byte where "DisplayRefresh = 0x12"
definition AutoMeasurementVcom :: byte where "AutoMeasurementVcom = 0x80"

subsection \<open>The platform: lines, the serial channel, time and the log\<close>

text \<open>
  The driver talks to the panel through periph.io: GPIO lines (\<^verbatim>\<open>gpio.PinOut.Out\<close>,
  \<^verbatim>\<open>gpio.PinIO.In\<close>, \<^verbatim>\<open>gpio.PinIO.Read\<close>), one SPI connection (\<^verbatim>\<open>conn.Conn.Tx\<close>),
  \<^verbatim>\<open>time.Sleep\<close> and \<^verbatim>\<open>log.Println\<close>. Each effect is an event appended to the
  world's trace; a platform call that fails leaves no event. A line handle is the name
  of the pin object the registry returned. \<open>PinIn\<close> is the one call
  \<^verbatim>\<open>busy.In(gpio.PullDown, gpio.RisingEdge)\<close>; \<open>SpiConnect\<close> carries the clock in Hz, the
  SPI mode and the bits per word; \<open>ConnTx bs\<close> is \<^verbatim>\<open>Tx(bs, nil)\<close>, a write whose read
  buffer is \<^verbatim>\<open>nil\<close>, so nothing is read back; \<open>TimeSleep\<close> counts milliseconds.
\<close>

datatype level = Low | High

type_synonym pin = string

datatype event =
    HostInit
  | PinOut pin level
  | PinIn pin
  | PinRead pin level
  | SpiOpen string
  | SpiConnect nat nat nat
  | SpiClose
  | ConnTx "byte list"
  | TimeSleep nat
  | LogPrintln string

text \<open>
  Go error values. \<open>IoError ev\<close> is the error a failed platform call returns (the call
  that would have been \<open>ev\<close>); \<open>ErrorString\<close> is \<^verbatim>\<open>errors.New\<close>. \<open>RuntimePanic\<close> is not
  an error value: it stands for a Go run-time panic (an index out of range), which
  unwinds the call instead of returning.
\<close>

datatype error = IoError event | ErrorString string | RuntimePanic string

text \<open>
  The world outside the driver. \<open>faults w 0\<close> tells whether the next fallible platform
  call returns an error, \<open>faults w 1\<close> the one after it, and so on; \<open>busy_levels w 0\<close> is
  the level the next read of the busy line returns. \<open>registry\<close> is \<^verbatim>\<open>gpioreg.ByName\<close>
  (\<open>None\<close> is Go's \<^verbatim>\<open>nil\<close>).
\<close>

record world =
  trace :: "event list"
  faults :: "nat \<Rightarrow> bool"
  busy_levels :: "nat \<Rightarrow> level"
  registry :: "string \<Rightarrow> pin option"

text \<open>
  A procedure of the driver runs in a world and either never returns (\<open>None\<close>: the busy
  wait has no timeout) or returns Go's \<^verbatim>\<open>error\<close> result (\<open>None\<close> is \<^verbatim>\<open>nil\<close>) and the
  world it leaves.
\<close>

type_synonym proc = "world \<Rightarrow> (error option \<times> world) option"

definition emit :: "event list \<Rightarrow> world \<Rightarrow> world" where
  "emit evs w = w\<lparr>trace := trace w @ evs\<rparr>"

definition fallible :: "event \<Rightarrow> proc" where
  "fallible ev w =
     (let w' = w\<lparr>faults := (\<lambda>n. faults w (Suc n))\<rparr>
      in if faults w 0 then Some (Some (IoError ev), w') else Some (None, emit [ev] w'))"

definition infallible :: "event \<Rightarrow> proc" where
  "infallible ev w = Some (None, emit [ev] w)"

definition gpio_INVALID :: pin where "gpio_INVALID = ''INVALID''"

definition host_Init :: proc where "host_Init = fallible HostInit"
definition pin_Out :: "pin \<Rightarrow> level \<Rightarrow> proc" where "pin_Out p l = fallible (PinOut p l)"
definition pin_In :: "pin \<Rightarrow> proc" where "pin_In p = fallible (PinIn p)"
definition spireg_Open :: "string \<Rightarrow> proc" where "spireg_Open name = fallible (SpiOpen name)"
definition port_Connect :: "nat \<Rightarrow> nat \<Rightarrow> nat \<Rightarrow> proc" where
  "port_Connect hz mode bits = fallible (SpiConnect hz mode bits)"
definition port_Close :: proc where "port_Close = fallible SpiClose"
definition conn_Tx :: "byte list \<Rightarrow> proc" where "conn_Tx bs = fallible (ConnTx bs)"
definition time_Sleep :: "nat \<Rightarrow> proc" where "time_Sleep ms = infallible (TimeSleep ms)"
definition log_Println :: "string \<Rightarrow> proc" where "log_Println s = infallible (LogPrintln s)"

definition pin_Read :: "pin \<Rightarrow> world \<Rightarrow> level \<times> world" where
  "pin_Read p w =
     (busy_levels w 0,
      emit [PinRead p (busy_levels w 0)] (w\<lparr>busy_levels := (\<lambda>n. busy_levels w (Suc n))\<rparr>))"

text \<open>
  A run of statements \<^verbatim>\<open>if err := step(); err != nil { return err }\<close> ending in
  \<^verbatim>\<open>return nil\<close>: the first error stops the run and is returned.
\<close>

fun seq :: "proc list \<Rightarrow> proc" where
  "seq [] w = Some (None, w)"
| "seq (p # ps) w =
     (case p w of
        None \<Rightarrow> None
      | Some (Some err, w') \<Rightarrow> Some (Some err, w')
      | Some (None, w') \<Rightarrow> seq ps w')"

text \<open>
  The loop \<^verbatim>\<open>for j := lo; j < n; j++ { if err := body(j); err != nil { return err } }\<close>.
\<close>

function for_range :: "int \<Rightarrow> int \<Rightarrow> (int \<Rightarrow> proc) \<Rightarrow> proc" where
  "for_range j n body w =
     (if j < n then
        (case body j w of
           None \<Rightarrow> None
         | Some (Some err, w') \<Rightarrow> Some (Some err, w')
         | Some (None, w') \<Rightarrow> for_range (j + 1) n body w')
      else Some (None, w))"
  by pat_completeness auto
termination
  by (relation "measure (\<lambda>(j, n, body, w). nat (n - j))") auto

declare for_range.simps [simp del]

subsection \<open>The controller handle\<close>

record Epd =
  dc :: pin
  cs :: pin
  rst :: pin
  busy :: pin
  widthByte :: int
  heightByte :: int

text \<open>
  \<^verbatim>\<open>New\<close>: every early \<^verbatim>\<open>return nil, err\<close> is a branch. \<open>attempt p k\<close> is a call
  \<open>p\<close> whose error is returned at once, followed by \<open>k\<close>; \<open>by_name\<close> is
  \<^verbatim>\<open>gpioreg.ByName\<close> with the \<^verbatim>\<open>nil\<close> check that follows it. The SPI connection
  \<^verbatim>\<open>c\<close> is the world's single channel, so the handle does not carry it.
\<close>

definition attempt :: "proc \<Rightarrow> (world \<Rightarrow> ((error + 'a) \<times> world) option) \<Rightarrow>
    world \<Rightarrow> ((error + 'a) \<times> world) option" where
  "attempt p k w =
     (case p w of
        None \<Rightarrow> None
      | Some (Some err, w') \<Rightarrow> Some (Inl err, w')
      | Some (None, w') \<Rightarrow> k w')"

definition by_name :: "string \<Rightarrow> string \<Rightarrow> (pin \<Rightarrow> world \<Rightarrow> ((error + 'a) \<times> world) option) \<Rightarrow>
    world \<Rightarrow> ((error + 'a) \<times> world) option" where
  "by_name name msg k w =
     (case registry w name of
        None \<Rightarrow> Some (Inl (ErrorString msg), w)
      | Some p \<Rightarrow> k p w)"

definition New :: "string \<Rightarrow> string \<Rightarrow> string \<Rightarrow> string \<Rightarrow> world \<Rightarrow> ((error + Epd) \<times> world) option" where
  "New dcPin csPin rstPin busyPin =
     attempt host_Init
      (by_name dcPin ''spi: failed to find DC pin'' (\<lambda>dc0 w.
        if dc0 = gpio_INVALID
        then Some (Inl (ErrorString ''epd: use nil for dc to use 3-wire mode, do not use gpio.INVALID''), w)
        else attempt (pin_Out dc0 Low)
         (by_name csPin ''spi: failed to find CS pin'' (\<lambda>cs0.
           attempt (pin_Out cs0 Low)
            (by_name rstPin ''spi: failed to find RST pin'' (\<lambda>rst0.
              attempt (pin_Out rst0 Low)
               (by_name busyPin ''spi: failed to find BUSY pin'' (\<lambda>busy0.
                 attempt (pin_In busy0)
                  (attempt (spireg_Open '''')
                    (\<lambda>w. case port_Connect 5000000 0 8 w of
                        None \<Rightarrow> None
                      | Some (Some err, w') \<Rightarrow>
                          (case port_Close w' of
                             None \<Rightarrow> None
                           | Some (Some err', w'') \<Rightarrow> Some (Inl err', w'')
                           | Some (None, w'') \<Rightarrow> Some (Inl err, w''))
                      | Some (None, w') \<Rightarrow>
                          Some (Inr \<lparr>dc = dc0, cs = cs0, rst = rst0, busy = busy0,
                                     widthByte = Epd7in5V2Width div 8,
                                     heightByte = Epd7in5V2Height\<rparr>, w'))))))))) w))"

subsection \<open>Transport\<close>

definition Reset :: "Epd \<Rightarrow> proc" where
  "Reset e =
     seq [pin_Out (rst e) High, time_Sleep 20,
          pin_Out (rst e) Low, time_Sleep 2,
          pin_Out (rst e) High, time_Sleep 20]"

definition sendCommand :: "Epd \<Rightarrow> byte \<Rightarrow> proc" where
  "sendCommand e cmd =
     seq [pin_Out (dc e) Low, pin_Out (cs e) Low, conn_Tx [cmd], pin_Out (cs e) High]"

definition sendData :: "Epd \<Rightarrow> byte \<Rightarrow> proc" where
  "sendData e data =
     seq [pin_Out (dc e) High, pin_Out (cs e) Low, conn_Tx [data], pin_Out (cs e) High]"

text \<open>
  \<^verbatim>\<open>waitUntilIdle\<close>: the polling loop has no bound, so it is a partial function; it
  returns nothing in Go and cannot fail.
\<close>

partial_function (option) waitUntilIdle_loop :: "Epd \<Rightarrow> world \<Rightarrow> (error option \<times> world) option" where
  "waitUntilIdle_loop e w =
     (case pin_Read (busy e) w of
        (l, w') \<Rightarrow>
          if l = Low then
            (case time_Sleep 5 w' of
               None \<Rightarrow> None
             | Some (r, w'') \<Rightarrow> waitUntilIdle_loop e w'')
          else Some (None, w'))"

definition waitUntilIdle :: "Epd \<Rightarrow> proc" where
  "waitUntilIdle e =
     seq [log_Println ''e-paper busy'', waitUntilIdle_loop e, time_Sleep 5,
          log_Println ''e-paper busy release'']"

definition turnOnDisplay :: "Epd \<Rightarrow> proc" where
  "turnOnDisplay e = seq [sendCommand e DisplayRefresh, time_Sleep 100, waitUntilIdle e]"

subsection \<open>Initialisation, sleep\<close>

definition Init :: "Epd \<Rightarrow> proc" where
  "Init e =
     seq [log_Println ''e-paper init'',
          Reset e,
          sendCommand e PowerSetting,
          sendData e 0x07, sendData e 0x07, sendData e 0x3f, sendData e 0x3f,
          sendCommand e 0x06,
          sendData e 0x17, sendData e 0x17, sendData e 0x28, sendData e 0x17,
          sendCommand e 0x04,
          time_Sleep 100,
          waitUntilIdle e,
          sendCommand e 0x00,
          sendData e 0x1F,
          sendCommand e 0x61,
          sendData e 0x03, sendData e 0x20, sendData e 0x01, sendData e 0xE0,
          sendCommand e 0x15,
          sendData e 0x00,
          sendCommand e 0x50,
          sendData e 0x10, sendData e 0x07,
          sendCommand e 0x60,
          sendData e 0x22]"

definition InitFast :: "Epd \<Rightarrow> proc" where
  "InitFast e =
     seq [Reset e,
          sendCommand e 0x00,
          sendData e 0x1F,
          sendCommand e 0x50,
          sendData e 0x10, sendData e 0x07,
          sendCommand e 0x04,
          time_Sleep 100,
          waitUntilIdle e,
          sendCommand e 0x06,
          sendData e 0x27, sendData e 0x27, sendData e 0x18, sendData e 0x17,
          sendCommand e 0xE0,
          sendData e 0x02,
          sendData e 0xE5,
          sendData e 0x5A]"

definition InitPart :: "Epd \<Rightarrow> proc" where
  "InitPart e =
     seq [Reset e,
          sendCommand e 0x00,
          sendData e 0x1F,
          sendCommand e 0x04,
          time_Sleep 100,
          waitUntilIdle e,
          sendCommand e 0xE0,
          sendData e 0x02,
          sendCommand e 0xE5,
          sendData e 0x6E]"

definition Sleep :: "Epd \<Rightarrow> proc" where
  "Sleep e =
     seq [sendCommand e PowerOff,
          waitUntilIdle e,
          sendCommand e DeepSleep,
          sendData e 0xA5]"

subsection \<open>Clear and Display\<close>

definition Clear :: "Epd \<Rightarrow> proc" where
  "Clear e =
     seq [sendCommand e DataStartTransmission1,
          for_range 0 (heightByte e) (\<lambda>j.
            for_range 0 (widthByte e) (\<lambda>i.
              for_range 0 4 (\<lambda>k. sendData e 0x33))),
          turnOnDisplay e]"

text \<open>
  The inner loop of \<^verbatim>\<open>Display\<close>, \<^verbatim>\<open>for k := 0; k < 8; k++\<close>, whose body increments
  \<^verbatim>\<open>k\<close> once more and shifts \<^verbatim>\<open>dataBlack\<close> twice.
\<close>

function Display_bits :: "Epd \<Rightarrow> int \<Rightarrow> byte \<Rightarrow> proc" where
  "Display_bits e k dataBlack w =
     (if k < 8 then
        (let data0 = (if dataBlack AND AutoMeasurementVcom > 0
                      then PanelSetting else PowerOffSequenceSetting);
             data1 = push_bit 4 data0;
             dataBlack1 = push_bit 1 dataBlack;
             k1 = k + 1;
             data2 = (if dataBlack1 AND AutoMeasurementVcom > 0
                      then data1 OR PanelSetting else data1 OR PowerOffSequenceSetting);
             dataBlack2 = push_bit 1 dataBlack1
         in case sendData e data2 w of
              None \<Rightarrow> None
            | Some (Some err, w') \<Rightarrow> Some (Some err, w')
            | Some (None, w') \<Rightarrow> Display_bits e (k1 + 1) dataBlack2 w')
      else Some (None, w))"
  by pat_completeness auto
termination
  by (relation "measure (\<lambda>(e, k, dataBlack, w). nat (8 - k))") auto

declare Display_bits.simps [simp del]

text \<open>
  The body of the column loop: \<^verbatim>\<open>img[i+j*e.widthByte]\<close> panics when the index is
  outside the slice.
\<close>

definition Display_byte :: "Epd \<Rightarrow> byte list \<Rightarrow> int \<Rightarrow> int \<Rightarrow> proc" where
  "Display_byte e img j i w =
     (let idx = i + j * widthByte e
      in if idx < 0 \<or> int (length img) \<le> idx
         then Some (Some (RuntimePanic ''index out of range''), w)
         else Display_bits e 0 (NOT (img ! nat idx)) w)"

definition Display :: "Epd \<Rightarrow> byte list \<Rightarrow> proc" where
  "Display e img =
     seq [log_Println ''Start e-paper display'',
          sendCommand e DataStartTransmission1,
          for_range 0 (heightByte e) (\<lambda>j.
            for_range 0 (widthByte e) (\<lambda>i. Display_byte e img j i)),
          log_Println ''End e-paper display image process'',
          turnOnDisplay e,
          log_Println ''End e-paper display'']"

subsection \<open>Images and the palette (Go's image and image/color packages)\<close>

text \<open>
  \<^verbatim>\<open>Convert\<close> reads its argument through the interface \<^verbatim>\<open>image.Image\<close>: \<^verbatim>\<open>Bounds()\<close>,
  a rectangle that need not contain the origin, and \<^verbatim>\<open>At(x, y)\<close>, a colour, of which
  \<^verbatim>\<open>Palette.Index\<close> uses only the four 16-bit channels \<^verbatim>\<open>RGBA()\<close> returns as
  \<^verbatim>\<open>uint32\<close>. \<open>sqDiff\<close> and \<open>Palette_Index\<close> follow the standard library.
\<close>

record Point =
  X :: int
  Y :: int

record Rectangle =
  Min_pt :: Point
  Max_pt :: Point

definition Dx :: "Rectangle \<Rightarrow> int" where "Dx r = X (Max_pt r) - X (Min_pt r)"
definition Dy :: "Rectangle \<Rightarrow> int" where "Dy r = Y (Max_pt r) - Y (Min_pt r)"

type_synonym Color = "uint32 \<times> uint32 \<times> uint32 \<times> uint32"

record Image =
  Bounds :: Rectangle
  At :: "int \<Rightarrow> int \<Rightarrow> Color"

definition color_Black :: Color where "color_Black = (0, 0, 0, 0xffff)"
definition color_White :: Color where "color_White = (0xffff, 0xffff, 0xffff, 0xffff)"

definition sqDiff :: "uint32 \<Rightarrow> uint32 \<Rightarrow> uint32" where
  "sqDiff x y = (let d = x - y in drop_bit 2 (d * d))"

fun Palette_Index_loop :: "Color list \<Rightarrow> int \<Rightarrow> Color \<Rightarrow> int \<Rightarrow> uint32 \<Rightarrow> int" where
  "Palette_Index_loop [] i c ret bestSum = ret"
| "Palette_Index_loop (v # p) i c ret bestSum =
     (case c of (cr, cg, cb, ca) \<Rightarrow>
      case v of (vr, vg, vb, va) \<Rightarrow>
        (let sum = sqDiff cr vr + sqDiff cg vg + sqDiff cb vb + sqDiff ca va
         in if sum < bestSum
            then (if sum = 0 then i else Palette_Index_loop p (i + 1) c i sum)
            else Palette_Index_loop p (i + 1) c ret bestSum))"

definition Palette_Index :: "Color list \<Rightarrow> Color \<Rightarrow> int" where
  "Palette_Index p c = Palette_Index_loop p 0 c 0 0xFFFFFFFF"

subsection \<open>Convert\<close>

definition bgColor :: int where "bgColor = 1"

text \<open>The value of \<^verbatim>\<open>bit\<close> for the panel pixel \<open>(i, j)\<close> (lines 490 to 494).\<close>

definition Convert_bit :: "Image \<Rightarrow> int \<Rightarrow> int \<Rightarrow> int" where
  "Convert_bit img i j =
     (if i < Dx (Bounds img) \<and> j < Dy (Bounds img)
      then Palette_Index [color_Black, color_White] (At img i j)
      else bgColor)"

text \<open>
  The column loop and the row loop. The store \<^verbatim>\<open>buffer[(i/8)+(j*e.widthByte)]\<close>
  panics when the index is outside the slice.
\<close>

function Convert_cols :: "Epd \<Rightarrow> Image \<Rightarrow> int \<Rightarrow> int \<Rightarrow> byte \<Rightarrow> byte list \<Rightarrow> error + (byte \<times> byte list)" where
  "Convert_cols e img j i byteToSend buffer =
     (if i < Epd7in5V2Width then
        (let byteToSend1 =
               (if Convert_bit img i j = 1
                then byteToSend OR drop_bit (unat ((word_of_int i :: uint32) mod 8)) AutoMeasurementVcom
                else byteToSend)
         in if i mod 8 = 7 then
              (let idx = (i div 8) + (j * widthByte e)
               in if idx < 0 \<or> int (length buffer) \<le> idx
                  then Inl (RuntimePanic ''index out of range'')
                  else Convert_cols e img j (i + 1) PanelSetting (buffer[nat idx := byteToSend1]))
            else Convert_cols e img j (i + 1) byteToSend1 buffer)
      else Inr (byteToSend, buffer))"
  by pat_completeness auto
termination
  by (relation "measure (\<lambda>(e, img, j, i, byteToSend, buffer). nat (Epd7in5V2Width - i))") auto

declare Convert_cols.simps [simp del]

function Convert_rows :: "Epd \<Rightarrow> Image \<Rightarrow> int \<Rightarrow> byte \<Rightarrow> byte list \<Rightarrow> error + (byte \<times> byte list)" where
  "Convert_rows e img j byteToSend buffer =
     (if j < Epd7in5V2Height then
        (case Convert_cols e img j 0 byteToSend buffer of
           Inl err \<Rightarrow> Inl err
         | Inr (byteToSend', buffer') \<Rightarrow> Convert_rows e img (j + 1) byteToSend' buffer')
      else Inr (byteToSend, buffer))"
  by pat_completeness auto
termination
  by (relation "measure (\<lambda>(e, img, j, byteToSend, buffer). nat (Epd7in5V2Height - j))") auto

declare Convert_rows.simps [simp del]

text \<open>
  \<^verbatim>\<open>bytes.Repeat\<close> panics on a negative count.
\<close>

definition Convert :: "Epd \<Rightarrow> Image \<Rightarrow> error + byte list" where
  "Convert e img =
     (let n = widthByte e * heightByte e
      in if n < 0 then Inl (RuntimePanic ''bytes: negative Repeat count'')
         else (case Convert_rows e img 0 PanelSetting (replicate (nat n) PanelSetting) of
                 Inl err \<Rightarrow> Inl err
               | Inr (byteToSend, buffer) \<Rightarrow> Inr buffer))"

section \<open>Observations\<close>

text \<open>
  The vocabulary of the properties. Nothing here is part of the driver: these are the
  worlds the properties speak of, the event sequences the driver's procedures leave on
  the trace, closed forms of what its loops compute, and concrete inputs.
\<close>

subsection \<open>Worlds\<close>

text \<open>No platform call fails, now or later.\<close>

definition nofault :: "world \<Rightarrow> bool" where
  "nofault w \<longleftrightarrow> (\<forall>n. \<not> faults w n)"

text \<open>The busy line reads low \<open>n\<close> times and then high.\<close>

definition released_after :: "world \<Rightarrow> nat \<Rightarrow> bool" where
  "released_after w n \<longleftrightarrow> (\<forall>m<n. busy_levels w m = Low) \<and> busy_levels w n = High"

text \<open>The world after \<open>n\<close> reads of the busy line.\<close>

definition skip_reads :: "nat \<Rightarrow> world \<Rightarrow> world" where
  "skip_reads n w = w\<lparr>busy_levels := (\<lambda>k. busy_levels w (k + n))\<rparr>"

text \<open>No platform call fails and the panel is never busy.\<close>

definition quiet :: "world \<Rightarrow> bool" where
  "quiet w \<longleftrightarrow> nofault w \<and> (\<forall>n. busy_levels w n = High)"

text \<open>The world a call leaves (the world it started in when it does not return).\<close>

definition after :: "proc \<Rightarrow> world \<Rightarrow> world" where
  "after p w = (case p w of None \<Rightarrow> w | Some (err, w') \<Rightarrow> w')"

subsection \<open>Event sequences\<close>

text \<open>
  The events of one \<^verbatim>\<open>sendCommand\<close>, of one \<^verbatim>\<open>sendData\<close>, of a run of
  \<^verbatim>\<open>sendData\<close> calls, of the reset pulse, and of a busy wait that reads low \<open>n\<close>
  times.
\<close>

definition command_frame :: "Epd \<Rightarrow> byte \<Rightarrow> event list" where
  "command_frame e cmd = [PinOut (dc e) Low, PinOut (cs e) Low, ConnTx [cmd], PinOut (cs e) High]"

definition data_frame :: "Epd \<Rightarrow> byte \<Rightarrow> event list" where
  "data_frame e d = [PinOut (dc e) High, PinOut (cs e) Low, ConnTx [d], PinOut (cs e) High]"

definition data_frames :: "Epd \<Rightarrow> byte list \<Rightarrow> event list" where
  "data_frames e ds = concat (map (data_frame e) ds)"

definition reset_pulse :: "Epd \<Rightarrow> event list" where
  "reset_pulse e =
     [PinOut (rst e) High, TimeSleep 20, PinOut (rst e) Low, TimeSleep 2, PinOut (rst e) High, TimeSleep 20]"

definition wait_events :: "Epd \<Rightarrow> nat \<Rightarrow> event list" where
  "wait_events e n =
     LogPrintln ''e-paper busy'' # concat (replicate n [PinRead (busy e) Low, TimeSleep 5]) @
     [PinRead (busy e) High, TimeSleep 5, LogPrintln ''e-paper busy release'']"

text \<open>
  In every world without faults the procedure returns \<^verbatim>\<open>nil\<close> and appends exactly
  these events (\<open>sends\<close>); the same in every quiet world (\<open>runs\<close>); in every world
  without faults it stops with the error after appending these events (\<open>aborts\<close>).
\<close>

definition sends :: "proc \<Rightarrow> event list \<Rightarrow> bool" where
  "sends p evs \<longleftrightarrow> (\<forall>w. nofault w \<longrightarrow> p w = Some (None, emit evs w))"

definition runs :: "proc \<Rightarrow> event list \<Rightarrow> bool" where
  "runs p evs \<longleftrightarrow> (\<forall>w. quiet w \<longrightarrow> p w = Some (None, emit evs w))"

definition aborts :: "proc \<Rightarrow> error \<Rightarrow> event list \<Rightarrow> bool" where
  "aborts p err evs \<longleftrightarrow> (\<forall>w. nofault w \<longrightarrow> p w = Some (Some err, emit evs w))"

text \<open>The bytes a trace shows on the serial channel, in order.\<close>

fun tx_bytes :: "event list \<Rightarrow> byte list" where
  "tx_bytes [] = []"
| "tx_bytes (ConnTx bs # evs) = bs @ tx_bytes evs"
| "tx_bytes (ev # evs) = tx_bytes evs"

text \<open>What is on the serial channel when a call has returned.\<close>

definition sent :: "(error option \<times> world) option \<Rightarrow> byte list" where
  "sent r = (case r of None \<Rightarrow> [] | Some (err, w) \<Rightarrow> tx_bytes (trace w))"

text \<open>The call returned, and its \<^verbatim>\<open>error\<close> result is \<^verbatim>\<open>nil\<close>.\<close>

definition returns_nil :: "(error option \<times> world) option \<Rightarrow> bool" where
  "returns_nil r = (case r of Some (None, w) \<Rightarrow> True | _ \<Rightarrow> False)"

subsection \<open>The expansion of a buffer byte by Display\<close>

text \<open>
  \<open>nibble x k\<close> is the 4-bit code \<^verbatim>\<open>Display\<close> sends for bit \<open>k\<close> of the buffer byte
  \<open>x\<close>, \<open>expansion x\<close> the four data bytes it sends for \<open>x\<close>, and \<open>pair_of b\<close> the data
  byte one pass of the inner loop builds from the two top bits of the complemented,
  shifted byte \<open>b\<close>.
\<close>

definition nibble :: "byte \<Rightarrow> nat \<Rightarrow> byte" where
  "nibble x k = (if bit x k then 0x3 else 0x0)"

definition expansion :: "byte \<Rightarrow> byte list" where
  "expansion x =
     [push_bit 4 (nibble x 7) OR nibble x 6,
      push_bit 4 (nibble x 5) OR nibble x 4,
      push_bit 4 (nibble x 3) OR nibble x 2,
      push_bit 4 (nibble x 1) OR nibble x 0]"

definition pair_of :: "byte \<Rightarrow> byte" where
  "pair_of b =
     push_bit 4 (if bit b 7 then PanelSetting else PowerOffSequenceSetting) OR
     (if bit b 6 then PanelSetting else PowerOffSequenceSetting)"

subsection \<open>The frame Convert builds\<close>

text \<open>The geometry \<^verbatim>\<open>New\<close> sets: 100 bytes per row, 480 rows.\<close>

definition geometry :: "Epd \<Rightarrow> bool" where
  "geometry e \<longleftrightarrow> widthByte e = Epd7in5V2Width div 8 \<and> heightByte e = Epd7in5V2Height"

text \<open>
  \<open>pixel_mask\<close> is what the panel pixel \<open>(i, j)\<close> contributes to \<^verbatim>\<open>byteToSend\<close>,
  \<open>Convert_byte img j c\<close> the byte stored for the columns \<open>8c\<close> to \<open>8c + 7\<close> of row
  \<open>j\<close>, \<open>frame\<close> the whole buffer, and \<open>partial_frame img n\<close> the buffer when its first
  \<open>n\<close> bytes have been stored.
\<close>

definition pixel_mask :: "Image \<Rightarrow> int \<Rightarrow> int \<Rightarrow> byte" where
  "pixel_mask img i j = (if Convert_bit img i j = 1 then drop_bit (nat (i mod 8)) AutoMeasurementVcom else 0)"

definition Convert_byte :: "Image \<Rightarrow> int \<Rightarrow> int \<Rightarrow> byte" where
  "Convert_byte img j c =
     (((((((PanelSetting OR pixel_mask img (8 * c) j) OR pixel_mask img (8 * c + 1) j) OR
           pixel_mask img (8 * c + 2) j) OR pixel_mask img (8 * c + 3) j) OR
         pixel_mask img (8 * c + 4) j) OR pixel_mask img (8 * c + 5) j) OR
       pixel_mask img (8 * c + 6) j) OR pixel_mask img (8 * c + 7) j"

definition frame_byte :: "Image \<Rightarrow> nat \<Rightarrow> byte" where
  "frame_byte img k = Convert_byte img (int (k div 100)) (int (k mod 100))"

definition frame :: "Image \<Rightarrow> byte list" where
  "frame img = map (frame_byte img) [0..<48000]"

definition partial_frame :: "Image \<Rightarrow> nat \<Rightarrow> byte list" where
  "partial_frame img n = map (\<lambda>k. if k < n then frame_byte img k else PanelSetting) [0..<48000]"

text \<open>The buffer \<^verbatim>\<open>Convert\<close> returned (empty when it panicked).\<close>

definition buffer_of :: "error + byte list \<Rightarrow> byte list" where
  "buffer_of r = (case r of Inl err \<Rightarrow> [] | Inr buffer \<Rightarrow> buffer)"

text \<open>Go's \<^verbatim>\<open>Point.In\<close>: whether a point lies within a rectangle.\<close>

definition Point_In :: "int \<Rightarrow> int \<Rightarrow> Rectangle \<Rightarrow> bool" where
  "Point_In x y r \<longleftrightarrow> X (Min_pt r) \<le> x \<and> x < X (Max_pt r) \<and> Y (Min_pt r) \<le> y \<and> y < Y (Max_pt r)"

subsection \<open>Concrete inputs\<close>

text \<open>
  A world in which no platform call fails and the panel is never busy, the handle
  \<^verbatim>\<open>New\<close> builds in it, the world \<^verbatim>\<open>New\<close> leaves, and the world after \<^verbatim>\<open>Init\<close>
  and \<^verbatim>\<open>Sleep\<close>.
\<close>

definition world0 :: world where
  "world0 = \<lparr>trace = [], faults = (\<lambda>n. False), busy_levels = (\<lambda>n. High), registry = (\<lambda>name. Some name)\<rparr>"

definition epd0 :: Epd where
  "epd0 = \<lparr>dc = ''GPIO25'', cs = ''GPIO8'', rst = ''GPIO17'', busy = ''GPIO24'',
            widthByte = 100, heightByte = 480\<rparr>"

definition world1 :: world where
  "world1 = emit [HostInit, PinOut ''GPIO25'' Low, PinOut ''GPIO8'' Low, PinOut ''GPIO17'' Low,
                  PinIn ''GPIO24'', SpiOpen '''', SpiConnect 5000000 0 8] world0"

definition world_slept :: world where
  "world_slept = after (Sleep epd0) (after (Init epd0) world1)"

text \<open>
  Images: one larger than the panel, all black; an 8 by 1 image at the origin, white but
  for the pixels 0 and 5; and two 8 by 1 images whose bounds start at \<open>x = 8\<close>
  (as \<^verbatim>\<open>SubImage\<close> returns), one white and one black, whose \<^verbatim>\<open>At\<close> is the zero
  colour outside the bounds as the standard library's images have it.
\<close>

definition img_big :: Image where
  "img_big = \<lparr>Bounds = \<lparr>Min_pt = \<lparr>X = 0, Y = 0\<rparr>, Max_pt = \<lparr>X = 1000, Y = 600\<rparr>\<rparr>,
               At = (\<lambda>x y. color_Black)\<rparr>"

definition img1 :: Image where
  "img1 = \<lparr>Bounds = \<lparr>Min_pt = \<lparr>X = 0, Y = 0\<rparr>, Max_pt = \<lparr>X = 8, Y = 1\<rparr>\<rparr>,
            At = (\<lambda>x y. if x = 0 \<or> x = 5 then color_Black else color_White)\<rparr>"

definition img_sub :: Image where
  "img_sub = \<lparr>Bounds = \<lparr>Min_pt = \<lparr>X = 8, Y = 0\<rparr>, Max_pt = \<lparr>X = 16, Y = 1\<rparr>\<rparr>,
               At = (\<lambda>x y. if 8 \<le> x \<and> x < 16 \<and> y = 0 then color_White else (0, 0, 0, 0))\<rparr>"

definition img_sub_black :: Image where
  "img_sub_black = \<lparr>Bounds = \<lparr>Min_pt = \<lparr>X = 8, Y = 0\<rparr>, Max_pt = \<lparr>X = 16, Y = 1\<rparr>\<rparr>,
                     At = (\<lambda>x y. if 8 \<le> x \<and> x < 16 \<and> y = 0 then color_Black else (0, 0, 0, 0))\<rparr>"

section \<open>Properties\<close>

subsection \<open>Worlds without faults, sequences and loops\<close>

lemma emit_Nil [simp]: "emit [] w = w"
  by (simp add: emit_def)

lemma emit_emit [simp]: "emit b (emit a w) = emit (a @ b) w"
  by (simp add: emit_def)

lemma nofault_emit [simp]: "nofault (emit evs w) = nofault w"
  by (simp add: emit_def nofault_def)

lemma fallible_nofault: "nofault w \<Longrightarrow> fallible ev w = Some (None, emit [ev] w)"
proof -
  assume nf: "nofault w"
  then have "(\<lambda>n. faults w (Suc n)) = faults w"
    by (auto simp: nofault_def)
  then have "w\<lparr>faults := (\<lambda>n. faults w (Suc n))\<rparr> = w"
    by simp
  with nf show ?thesis
    by (simp add: fallible_def nofault_def Let_def)
qed

lemma sendsD: "sends p evs \<Longrightarrow> nofault w \<Longrightarrow> p w = Some (None, emit evs w)"
  by (simp add: sends_def)

lemma sends_fallible: "sends (fallible ev) [ev]"
  by (simp add: sends_def fallible_nofault)

lemma sends_infallible: "sends (infallible ev) [ev]"
  by (simp add: sends_def infallible_def)

lemma sends_seq_Nil: "sends (seq []) []"
  by (simp add: sends_def)

lemma sends_seq_Cons: "sends p a \<Longrightarrow> sends (seq ps) b \<Longrightarrow> sends (seq (p # ps)) (a @ b)"
  by (simp add: sends_def)

lemma sends_sendCommand: "sends (sendCommand e cmd) (command_frame e cmd)"
proof -
  have "sends (sendCommand e cmd) ([PinOut (dc e) Low] @ [PinOut (cs e) Low] @ [ConnTx [cmd]] @ [PinOut (cs e) High] @ [])"
    unfolding sendCommand_def pin_Out_def conn_Tx_def
    by (intro sends_seq_Cons sends_seq_Nil sends_fallible)
  then show ?thesis by (simp add: command_frame_def)
qed

lemma sends_sendData: "sends (sendData e d) (data_frame e d)"
proof -
  have "sends (sendData e d) ([PinOut (dc e) High] @ [PinOut (cs e) Low] @ [ConnTx [d]] @ [PinOut (cs e) High] @ [])"
    unfolding sendData_def pin_Out_def conn_Tx_def
    by (intro sends_seq_Cons sends_seq_Nil sends_fallible)
  then show ?thesis by (simp add: data_frame_def)
qed

lemma for_range_done: "n \<le> j \<Longrightarrow> for_range j n body w = Some (None, w)"
  by (subst for_range.simps) simp

lemma Display_bits_done: "8 \<le> k \<Longrightarrow> Display_bits e k b w = Some (None, w)"
  by (subst Display_bits.simps) simp

lemma sends_for_range:
  assumes "\<And>j. lo \<le> j \<Longrightarrow> j < hi \<Longrightarrow> sends (body j) (evs j)"
  shows "sends (for_range lo hi body) (concat (map evs [lo..hi - 1]))"
  using assms
proof (induction "nat (hi - lo)" arbitrary: lo)
  case 0
  then have "hi \<le> lo" by simp
  then show ?case by (simp add: sends_def for_range_done)
next
  case (Suc m)
  then have lt: "lo < hi" by linarith
  have m: "m = nat (hi - (lo + 1))" using Suc.hyps(2) by linarith
  have rest: "sends (for_range (lo + 1) hi body) (concat (map evs [lo + 1..hi - 1]))"
    by (rule Suc.hyps(1) [OF m]) (simp add: Suc.prems)
  have first: "sends (body lo) (evs lo)"
    using Suc.prems lt by simp
  have up: "[lo..hi - 1] = lo # [lo + 1..hi - 1]"
    using lt by (simp add: upto_rec1)
  show ?case
    unfolding sends_def
  proof (intro allI impI)
    fix w assume nf: "nofault w"
    have "for_range lo hi body w = for_range (lo + 1) hi body (emit (evs lo) w)"
      using lt sendsD [OF first nf] by (subst for_range.simps) simp
    also have "\<dots> = Some (None, emit (concat (map evs [lo + 1..hi - 1])) (emit (evs lo) w))"
      using sendsD [OF rest] nf by simp
    finally show "for_range lo hi body w = Some (None, emit (concat (map evs [lo..hi - 1])) w)"
      by (simp add: up)
  qed
qed

lemma upto_replicate: "concat (map (\<lambda>j. xs) [lo..hi - 1]) = concat (replicate (nat (hi - lo)) xs)"
proof -
  have "map (\<lambda>j. xs) [lo..hi - 1] = replicate (length [lo..hi - 1]) xs"
    by (simp add: map_replicate_const)
  then show ?thesis by simp
qed

lemma sends_for_range_const:
  assumes "sends p evs"
  shows "sends (for_range lo hi (\<lambda>j. p)) (concat (replicate (nat (hi - lo)) evs))"
  using sends_for_range [of lo hi "\<lambda>j. p" "\<lambda>j. evs"] assms
  by (simp add: upto_replicate)

lemma seq_single: "seq [p] w = p w"
  by (cases "p w") (auto split: option.splits)

subsection \<open>The busy wait\<close>

lemma skip_emit: "skip_reads n (emit evs w) = emit evs (skip_reads n w)"
  by (simp add: skip_reads_def emit_def)

lemma released_emit [simp]: "released_after (emit evs w) n = released_after w n"
  by (simp add: released_after_def emit_def)

lemma nofault_skip [simp]: "nofault (skip_reads n w) = nofault w"
  by (simp add: skip_reads_def nofault_def)

lemma waitUntilIdle_loop_released:
  "released_after w n \<Longrightarrow>
   waitUntilIdle_loop e w =
     Some (None, emit (concat (replicate n [PinRead (busy e) Low, TimeSleep 5]) @ [PinRead (busy e) High])
                   (skip_reads (Suc n) w))"
proof (induction n arbitrary: w)
  case 0
  then have "busy_levels w 0 = High" by (simp add: released_after_def)
  then show ?case
    by (subst waitUntilIdle_loop.simps) (simp add: pin_Read_def skip_reads_def emit_def)
next
  case (Suc n)
  let ?w1 = "emit [PinRead (busy e) Low, TimeSleep 5] (skip_reads 1 w)"
  from Suc.prems have low: "busy_levels w 0 = Low"
    by (simp add: released_after_def)
  from Suc.prems have rel: "released_after ?w1 n"
    by (auto simp: released_after_def emit_def skip_reads_def)
  have "waitUntilIdle_loop e w = waitUntilIdle_loop e ?w1"
    using low
    by (subst waitUntilIdle_loop.simps)
       (simp add: pin_Read_def time_Sleep_def infallible_def skip_reads_def emit_def)
  also have "\<dots> = Some (None, emit (concat (replicate n [PinRead (busy e) Low, TimeSleep 5]) @ [PinRead (busy e) High])
                   (skip_reads (Suc n) ?w1))"
    by (rule Suc.IH [OF rel])
  finally show ?case
    by (simp add: skip_emit) (simp add: skip_reads_def)
qed

lemma waitUntilIdle_released:
  assumes "released_after w n"
  shows "waitUntilIdle e w = Some (None, emit (wait_events e n) (skip_reads (Suc n) w))"
proof -
  have "released_after (emit [LogPrintln ''e-paper busy''] w) n"
    using assms by simp
  from waitUntilIdle_loop_released [OF this, of e] show ?thesis
    by (simp add: waitUntilIdle_def log_Println_def time_Sleep_def infallible_def wait_events_def skip_emit)
qed

lemma sends_for_range_nat:
  assumes "\<And>j. lo \<le> j \<Longrightarrow> j < hi \<Longrightarrow> sends (body j) (evs j)"
  shows "sends (for_range lo hi body) (concat (map (\<lambda>k. evs (lo + int k)) [0..<nat (hi - lo)]))"
proof -
  have "[lo..hi - 1] = map (\<lambda>k. lo + int k) [0..<nat (hi - lo)]"
  proof (rule nth_equalityI)
    show "length [lo..hi - 1] = length (map (\<lambda>k. lo + int k) [0..<nat (hi - lo)])"
      by simp
  next
    fix i assume "i < length [lo..hi - 1]"
    then show "[lo..hi - 1] ! i = map (\<lambda>k. lo + int k) [0..<nat (hi - lo)] ! i"
      by simp
  qed
  then have "map evs [lo..hi - 1] = map (\<lambda>k. evs (lo + int k)) [0..<nat (hi - lo)]"
    by (simp add: comp_def)
  with sends_for_range [of lo hi body evs, OF assms] show ?thesis
    by simp
qed

subsection \<open>The inner loop of Display\<close>

lemma msb_test: "(0 < (b :: byte) AND AutoMeasurementVcom) = bit b 7"
proof -
  have "b AND 2 ^ 7 = 0 \<longleftrightarrow> \<not> bit b 7"
    by (rule and_exp_eq_0_iff_not_bit)
  then show ?thesis
    by (simp add: AutoMeasurementVcom_def word_greater_zero_iff)
qed

lemma sendData_nofault: "nofault w \<Longrightarrow> sendData e d w = Some (None, emit (data_frame e d) w)"
  using sendsD [OF sends_sendData] by simp

lemma bit_shifted:
  fixes y :: byte
  shows "m \<le> 7 \<Longrightarrow> bit (y * 2 ^ m) 7 = bit y (7 - m)"
    and "m \<le> 6 \<Longrightarrow> bit (y * 2 ^ m) 6 = bit y (6 - m)"
  by (simp_all only: flip: push_bit_eq_mult) (simp_all only: bit_push_bit_iff, simp_all)

lemma bit_times:
  fixes y :: byte
  shows "bit (y * 2) 7 = bit y 6"
    and "bit (4 * y) 7 = bit y 5" and "bit (4 * y) 6 = bit y 4"
    and "bit (16 * y) 7 = bit y 3" and "bit (16 * y) 6 = bit y 2"
    and "bit (64 * y) 7 = bit y 1" and "bit (64 * y) 6 = bit y 0"
  using bit_shifted [of 1 y] bit_shifted [of 2 y] bit_shifted [of 4 y] bit_shifted [of 6 y]
  by (simp_all add: mult.commute)

lemma Display_bits_step:
  assumes "k < 8" "nofault w"
  shows "Display_bits e k b w = Display_bits e (2 + k) (4 * b) (emit (data_frame e (pair_of b)) w)"
  using assms
  by (subst Display_bits.simps)
     (simp add: Let_def msb_test sendData_nofault bit_times pair_of_def)

lemma pair_of_shift:
  "pair_of (NOT x) = push_bit 4 (nibble x 7) OR nibble x 6"
  "pair_of (4 * NOT x) = push_bit 4 (nibble x 5) OR nibble x 4"
  "pair_of (16 * NOT x) = push_bit 4 (nibble x 3) OR nibble x 2"
  "pair_of (64 * NOT x) = push_bit 4 (nibble x 1) OR nibble x 0"
  by (simp_all add: pair_of_def nibble_def bit_times bit_not_iff PanelSetting_def PowerOffSequenceSetting_def)

lemma sends_Display_bits: "sends (Display_bits e 0 (NOT x)) (data_frames e (expansion x))"
  unfolding sends_def
proof (intro allI impI)
  fix w assume nf: "nofault w"
  have "Display_bits e 0 (NOT x) w =
        Display_bits e 8 (256 * NOT x)
          (emit (data_frame e (pair_of (NOT x)) @ data_frame e (pair_of (4 * NOT x)) @
                 data_frame e (pair_of (16 * NOT x)) @ data_frame e (pair_of (64 * NOT x))) w)"
    using nf
    by (simp add: Display_bits_step [of 0] Display_bits_step [of 2] Display_bits_step [of 4]
          Display_bits_step [of 6])
  then show "Display_bits e 0 (NOT x) w = Some (None, emit (data_frames e (expansion x)) w)"
    by (simp add: pair_of_shift data_frames_def expansion_def Display_bits_done)
qed

subsection \<open>Clear and Display as event sequences\<close>

lemma geometry_simps: "geometry e \<Longrightarrow> widthByte e = 100" "geometry e \<Longrightarrow> heightByte e = 480"
  by (simp_all add: geometry_def Epd7in5V2Width_def Epd7in5V2Height_def)

lemma concat_replicate_concat:
  "concat (replicate n (concat (replicate m xs))) = concat (replicate (n * m) xs)"
  by (induction n) (simp_all add: replicate_add)

lemma data_frames_replicate: "concat (replicate n (data_frame e d)) = data_frames e (replicate n d)"
  by (induction n) (simp_all add: data_frames_def)

lemma data_frames_Nil [simp]: "data_frames e [] = []"
  by (simp add: data_frames_def)

lemma data_frames_append [simp]: "data_frames e (xs @ ys) = data_frames e xs @ data_frames e ys"
  by (simp add: data_frames_def)

lemma data_frames_concat: "concat (map (\<lambda>x. data_frames e (f x)) xs) = data_frames e (concat (map f xs))"
  by (induction xs) simp_all

lemma sends_Clear_loops:
  "sends (for_range 0 (heightByte e) (\<lambda>j. for_range 0 (widthByte e) (\<lambda>i. for_range 0 4 (\<lambda>k. sendData e 0x33))))
     (data_frames e (replicate (nat (heightByte e) * (nat (widthByte e) * 4)) 0x33))"
proof -
  have "sends (for_range 0 (heightByte e) (\<lambda>j. for_range 0 (widthByte e) (\<lambda>i. for_range 0 4 (\<lambda>k. sendData e 0x33))))
     (concat (replicate (nat (heightByte e - 0)) (concat (replicate (nat (widthByte e - 0))
        (concat (replicate (nat (4 - 0)) (data_frame e 0x33)))))))"
    by (intro sends_for_range_const sends_sendData)
  then have "sends (for_range 0 (heightByte e) (\<lambda>j. for_range 0 (widthByte e) (\<lambda>i. for_range 0 4 (\<lambda>k. sendData e 0x33))))
     (concat (replicate (nat (heightByte e) * (nat (widthByte e) * nat 4)) (data_frame e 0x33)))"
    by (simp only: concat_replicate_concat diff_zero)
  then show ?thesis
    by (simp only: data_frames_replicate) simp
qed

lemma sends_time_Sleep: "sends (time_Sleep ms) [TimeSleep ms]"
  by (simp add: time_Sleep_def sends_infallible)

lemma sends_log_Println: "sends (log_Println s) [LogPrintln s]"
  by (simp add: log_Println_def sends_infallible)

lemma seq_sends_Cons: "sends p evs \<Longrightarrow> nofault w \<Longrightarrow> seq (p # ps) w = seq ps (emit evs w)"
  by (simp add: sends_def)

lemma turnOnDisplay_nofault:
  "nofault w \<Longrightarrow>
   turnOnDisplay e w = waitUntilIdle e (emit (command_frame e DisplayRefresh @ [TimeSleep 100]) w)"
  by (simp add: turnOnDisplay_def seq_sends_Cons [OF sends_sendCommand] seq_sends_Cons [OF sends_time_Sleep]
        seq_single del: seq.simps)

lemma Clear_nofault:
  assumes "nofault w"
  shows "Clear e w =
     waitUntilIdle e
       (emit (command_frame e DataStartTransmission1 @
              data_frames e (replicate (nat (heightByte e) * (nat (widthByte e) * 4)) 0x33) @
              command_frame e DisplayRefresh @ [TimeSleep 100]) w)"
  using assms
  by (simp add: Clear_def seq_sends_Cons [OF sends_sendCommand] seq_sends_Cons [OF sends_Clear_loops]
        seq_single turnOnDisplay_nofault del: seq.simps)

lemma take_drop_nth: "n + m \<le> length xs \<Longrightarrow> map (\<lambda>i. xs ! (i + n)) [0..<m] = take m (drop n xs)"
  by (rule nth_equalityI) (simp_all add: add.commute)

lemma grid_rows:
  "h * c \<le> length xs \<Longrightarrow>
   concat (map (\<lambda>j. map (\<lambda>i. xs ! (i + j * c)) [0..<c]) [0..<h]) = take (h * c) xs"
proof (induction h)
  case 0
  then show ?case by simp
next
  case (Suc h)
  then have "h * c + c \<le> length xs" by (simp add: add.commute)
  then have "map (\<lambda>i. xs ! (i + h * c)) [0..<c] = take c (drop (h * c) xs)"
    by (rule take_drop_nth)
  moreover have "h * c \<le> length xs" using Suc.prems by simp
  moreover have "Suc h * c = h * c + c" by simp
  moreover have "[0..<Suc h] = [0..<h] @ [h]" by simp
  ultimately show ?case
    using Suc.IH by (simp only: take_add map_append concat_append list.map concat.simps append_Nil2)
qed

lemma grid_concat:
  assumes "h * c \<le> length xs"
  shows "concat (map (\<lambda>j. concat (map (\<lambda>i. f (xs ! (i + j * c))) [0..<c])) [0..<h]) =
         concat (map f (take (h * c) xs))"
proof -
  have "concat (map (\<lambda>j. concat (map (\<lambda>i. f (xs ! (i + j * c))) [0..<c])) js) =
        concat (map f (concat (map (\<lambda>j. map (\<lambda>i. xs ! (i + j * c)) [0..<c]) js)))" for js
    by (induction js) (simp_all add: comp_def)
  then show ?thesis
    by (simp add: grid_rows [OF assms])
qed

lemma seq_flatten: "seq (seq ps # qs) w = seq (ps @ qs) w"
  by (induction ps arbitrary: w) (auto split: option.splits prod.splits)

lemma sends_Display_byte:
  assumes "geometry e" "0 \<le> i" "i < 100" "0 \<le> j" "j < 480" "48000 \<le> length img"
  shows "sends (Display_byte e img j i) (data_frames e (expansion (img ! nat (i + j * 100))))"
proof -
  have "\<not> (i + j * 100 < 0 \<or> int (length img) \<le> i + j * 100)"
    using assms by linarith
  then show ?thesis
    using assms(1) sends_Display_bits [of e "img ! nat (i + j * 100)"]
    by (simp add: sends_def Display_byte_def geometry_simps Let_def)
qed

lemma sends_Display_loops:
  assumes "geometry e" "48000 \<le> length img"
  shows "sends (for_range 0 (heightByte e) (\<lambda>j. for_range 0 (widthByte e) (\<lambda>i. Display_byte e img j i)))
           (data_frames e (concat (map expansion (take 48000 img))))"
proof -
  let ?f = "\<lambda>x. data_frames e (expansion x)"
  have row: "sends (for_range 0 100 (\<lambda>i. Display_byte e img j i))
               (concat (map (\<lambda>k. ?f (img ! nat (0 + int k + j * 100))) [0..<nat (100 - 0)]))"
    if "0 \<le> j" "j < 480" for j
    using that assms by (intro sends_for_range_nat sends_Display_byte) simp_all
  have "sends (for_range 0 480 (\<lambda>j. for_range 0 100 (\<lambda>i. Display_byte e img j i)))
          (concat (map (\<lambda>a. concat (map (\<lambda>k. ?f (img ! nat (0 + int k + (0 + int a) * 100))) [0..<nat (100 - 0)]))
             [0..<nat (480 - 0)]))"
    by (intro sends_for_range_nat row) simp_all
  moreover have "nat (int k + int a * 100) = k + a * 100" for k a
    by (simp add: nat_add_distrib nat_mult_distrib)
  moreover have "480 * 100 \<le> length img"
    using assms by simp
  note grid_concat [OF this, of ?f]
  ultimately show ?thesis
    using assms by (simp add: geometry_simps data_frames_concat)
qed

lemma Display_nofault:
  assumes "nofault w" "geometry e" "48000 \<le> length img"
  shows "Display e img w =
     seq [waitUntilIdle e, log_Println ''End e-paper display'']
       (emit (LogPrintln ''Start e-paper display'' # command_frame e DataStartTransmission1 @
              data_frames e (concat (map expansion (take 48000 img))) @
              LogPrintln ''End e-paper display image process'' #
              command_frame e DisplayRefresh @ [TimeSleep 100]) w)"
  using assms
  by (simp add: Display_def turnOnDisplay_def seq_flatten
        seq_sends_Cons [OF sends_sendCommand] seq_sends_Cons [OF sends_log_Println]
        seq_sends_Cons [OF sends_time_Sleep]
        seq_sends_Cons [OF sends_Display_loops] del: seq.simps)

subsection \<open>Convert in closed form\<close>

lemma shift_amount: "unat ((word_of_int i :: uint32) mod 8) = nat (i mod 8)"
proof -
  have "unat ((word_of_int i :: uint32) mod 8) = unat (word_of_int i :: uint32) mod 8"
    by (simp add: unat_mod)
  also have "unat (word_of_int i :: uint32) = nat (i mod 2 ^ 32)"
    by (simp add: unsigned_of_int take_bit_eq_mod)
  also have "nat (i mod 2 ^ 32) mod 8 = nat ((i mod 2 ^ 32) mod 8)"
    by (simp add: nat_mod_distrib)
  also have "(i mod 2 ^ 32) mod 8 = i mod 8"
    by (rule mod_mod_cancel) simp
  finally show ?thesis .
qed

lemma Convert_cols_mid:
  assumes "i < 800" "i mod 8 \<noteq> 7" "i' = i + 1"
  shows "Convert_cols e img j i b buf = Convert_cols e img j i' (b OR pixel_mask img i j) buf"
  using assms
  by (subst Convert_cols.simps)
     (simp add: Epd7in5V2Width_def shift_amount pixel_mask_def Let_def)

lemma Convert_cols_end:
  assumes "i < 800" "i mod 8 = 7" "i' = i + 1" "idx = i div 8 + j * widthByte e"
    "0 \<le> idx" "idx < int (length buf)"
  shows "Convert_cols e img j i b buf =
         Convert_cols e img j i' PanelSetting (buf[nat idx := b OR pixel_mask img i j])"
  using assms
  by (subst Convert_cols.simps)
     (simp add: Epd7in5V2Width_def shift_amount pixel_mask_def Let_def)

lemma Convert_cols_byte:
  assumes "0 \<le> c" "c < 100" "0 \<le> c + j * widthByte e" "c + j * widthByte e < int (length buf)"
  shows "Convert_cols e img j (8 * c) PanelSetting buf =
         Convert_cols e img j (8 * c + 8) PanelSetting (buf[nat (c + j * widthByte e) := Convert_byte img j c])"
proof -
  have "Convert_cols e img j (8 * c) PanelSetting buf =
        Convert_cols e img j (8 * c + 1) (PanelSetting OR pixel_mask img (8 * c) j) buf"
    by (rule Convert_cols_mid) (insert assms, simp_all)
  also have "\<dots> =
        Convert_cols e img j (8 * c + 2) ((PanelSetting OR pixel_mask img (8 * c) j) OR pixel_mask img (8 * c + 1) j) buf"
    by (rule Convert_cols_mid) (insert assms, simp_all)
  also have "\<dots> =
        Convert_cols e img j (8 * c + 3) (((PanelSetting OR pixel_mask img (8 * c) j) OR pixel_mask img (8 * c + 1) j) OR pixel_mask img (8 * c + 2) j) buf"
    by (rule Convert_cols_mid) (insert assms, simp_all)
  also have "\<dots> =
        Convert_cols e img j (8 * c + 4) ((((PanelSetting OR pixel_mask img (8 * c) j) OR pixel_mask img (8 * c + 1) j) OR pixel_mask img (8 * c + 2) j) OR pixel_mask img (8 * c + 3) j) buf"
    by (rule Convert_cols_mid) (insert assms, simp_all)
  also have "\<dots> =
        Convert_cols e img j (8 * c + 5) (((((PanelSetting OR pixel_mask img (8 * c) j) OR pixel_mask img (8 * c + 1) j) OR pixel_mask img (8 * c + 2) j) OR pixel_mask img (8 * c + 3) j) OR pixel_mask img (8 * c + 4) j) buf"
    by (rule Convert_cols_mid) (insert assms, simp_all)
  also have "\<dots> =
        Convert_cols e img j (8 * c + 6) ((((((PanelSetting OR pixel_mask img (8 * c) j) OR pixel_mask img (8 * c + 1) j) OR pixel_mask img (8 * c + 2) j) OR pixel_mask img (8 * c + 3) j) OR pixel_mask img (8 * c + 4) j) OR pixel_mask img (8 * c + 5) j) buf"
    by (rule Convert_cols_mid) (insert assms, simp_all)
  also have "\<dots> =
        Convert_cols e img j (8 * c + 7) (((((((PanelSetting OR pixel_mask img (8 * c) j) OR pixel_mask img (8 * c + 1) j) OR pixel_mask img (8 * c + 2) j) OR pixel_mask img (8 * c + 3) j) OR pixel_mask img (8 * c + 4) j) OR pixel_mask img (8 * c + 5) j) OR pixel_mask img (8 * c + 6) j) buf"
    by (rule Convert_cols_mid) (insert assms, simp_all)
  also have "\<dots> = Convert_cols e img j (8 * c + 8) PanelSetting
       (buf[nat (c + j * widthByte e) := ((((((((PanelSetting OR pixel_mask img (8 * c) j) OR pixel_mask img (8 * c + 1) j) OR pixel_mask img (8 * c + 2) j) OR pixel_mask img (8 * c + 3) j) OR pixel_mask img (8 * c + 4) j) OR pixel_mask img (8 * c + 5) j) OR pixel_mask img (8 * c + 6) j) OR pixel_mask img (8 * c + 7) j)])"
    by (rule Convert_cols_end) (insert assms, simp_all)
  finally show ?thesis
    by (simp only: Convert_byte_def)
qed

lemma length_partial_frame [simp]: "length (partial_frame img n) = 48000"
  by (simp add: partial_frame_def)

lemma partial_frame_update:
  assumes "n < 48000"
  shows "(partial_frame img n)[n := frame_byte img n] = partial_frame img (Suc n)"
proof (rule nth_equalityI)
  show "length ((partial_frame img n)[n := frame_byte img n]) = length (partial_frame img (Suc n))"
    by simp
next
  fix i assume "i < length ((partial_frame img n)[n := frame_byte img n])"
  then have i: "i < 48000" by simp
  show "(partial_frame img n)[n := frame_byte img n] ! i = partial_frame img (Suc n) ! i"
  proof (cases "i = n")
    case True
    with assms show ?thesis by (simp add: partial_frame_def)
  next
    case False
    with i show ?thesis by (auto simp: partial_frame_def)
  qed
qed

lemma partial_frame_0: "partial_frame img 0 = replicate 48000 PanelSetting"
  by (simp add: partial_frame_def map_replicate_trivial)

lemma partial_frame_full: "partial_frame img 48000 = frame img"
  by (simp add: partial_frame_def frame_def)

lemma Convert_cols_row:
  assumes "geometry e" "jn < 480" "cn \<le> 100"
  shows "Convert_cols e img (int jn) (8 * int cn) PanelSetting (partial_frame img (jn * 100 + cn)) =
         Inr (PanelSetting, partial_frame img (jn * 100 + 100))"
  using assms(3)
proof (induction k \<equiv> "100 - cn" arbitrary: cn)
  case 0
  then have "cn = 100" by simp
  then show ?case
    by (subst Convert_cols.simps) (simp add: Epd7in5V2Width_def)
next
  case (Suc k)
  then have cn: "cn < 100" by simp
  have w: "widthByte e = 100" using assms(1) by (rule geometry_simps)
  have idx: "nat (int cn + int jn * widthByte e) = jn * 100 + cn"
    unfolding w by (simp add: nat_add_distrib nat_mult_distrib)
  have fb: "Convert_byte img (int jn) (int cn) = frame_byte img (jn * 100 + cn)"
    using cn by (simp add: frame_byte_def)
  have s1: "Convert_cols e img (int jn) (8 * int cn) PanelSetting (partial_frame img (jn * 100 + cn)) =
        Convert_cols e img (int jn) (8 * int cn + 8) PanelSetting
          ((partial_frame img (jn * 100 + cn))[nat (int cn + int jn * widthByte e) := Convert_byte img (int jn) (int cn)])"
    by (rule Convert_cols_byte) (insert cn assms(2), simp_all add: w)
  have s2: "(partial_frame img (jn * 100 + cn))[nat (int cn + int jn * widthByte e) := Convert_byte img (int jn) (int cn)] =
             partial_frame img (jn * 100 + Suc cn)"
    using cn assms(2) by (simp add: idx fb partial_frame_update)
  have s3: "8 * int cn + 8 = 8 * int (Suc cn)"
    by simp
  have s4: "Convert_cols e img (int jn) (8 * int (Suc cn)) PanelSetting (partial_frame img (jn * 100 + Suc cn)) =
            Inr (PanelSetting, partial_frame img (jn * 100 + 100))"
    using Suc.hyps(2) cn by (intro Suc.hyps(1)) simp_all
  show ?case
    unfolding s1 s2 s3 by (rule s4)
qed

lemma Convert_rows_step:
  assumes "j < 480" "j' = j + 1" "Convert_cols e img j 0 b buf = Inr (b', buf')"
  shows "Convert_rows e img j b buf = Convert_rows e img j' b' buf'"
  using assms by (subst Convert_rows.simps) (simp add: Epd7in5V2Height_def)

lemma Convert_rows_all:
  assumes "geometry e" "jn \<le> 480"
  shows "Convert_rows e img (int jn) PanelSetting (partial_frame img (jn * 100)) = Inr (PanelSetting, frame img)"
  using assms(2)
proof (induction k \<equiv> "480 - jn" arbitrary: jn)
  case 0
  then have "jn = 480" by simp
  then show ?case
    by (subst Convert_rows.simps) (simp add: Epd7in5V2Height_def partial_frame_full)
next
  case (Suc k)
  then have jn: "jn < 480" by simp
  have "jn * 100 + 100 = Suc jn * 100"
    by simp
  then have row: "Convert_cols e img (int jn) 0 PanelSetting (partial_frame img (jn * 100)) =
             Inr (PanelSetting, partial_frame img (Suc jn * 100))"
    using Convert_cols_row [OF assms(1) jn, of 0 img] by (simp only: add_0_right mult_zero_right int_ops)
  have "Convert_rows e img (int jn) PanelSetting (partial_frame img (jn * 100)) =
        Convert_rows e img (int (Suc jn)) PanelSetting (partial_frame img (Suc jn * 100))"
    by (rule Convert_rows_step [OF _ _ row]) (insert jn, simp_all)
  also have "\<dots> = Inr (PanelSetting, frame img)"
    using Suc.hyps(2) jn by (intro Suc.hyps(1)) simp_all
  finally show ?case .
qed

lemma Convert_frame: "geometry e \<Longrightarrow> Convert e img = Inr (frame img)"
  using Convert_rows_all [of e 0 img]
  by (simp add: Convert_def geometry_simps partial_frame_0)

subsection \<open>The concrete world and handle\<close>

lemma nofault_world0 [simp]: "nofault world0"
  by (simp add: nofault_def world0_def)

lemma nofault_world1 [simp]: "nofault world1"
  by (simp add: world1_def)

lemma geometry_epd0 [simp]: "geometry epd0"
  by (simp add: geometry_def epd0_def Epd7in5V2Width_def Epd7in5V2Height_def)

lemma attempt_nofault:
  "nofault w \<Longrightarrow> attempt (fallible ev) k w = k (emit [ev] w)"
  by (simp add: attempt_def fallible_nofault)

lemma New_world0: "New ''GPIO25'' ''GPIO8'' ''GPIO17'' ''GPIO24'' world0 = Some (Inr epd0, world1)"
proof -
  have reg: "registry (emit evs world0) name = Some name" for evs name
    by (simp add: emit_def world0_def)
  show ?thesis
    by (simp add: New_def host_Init_def pin_Out_def pin_In_def spireg_Open_def port_Connect_def
          attempt_nofault by_name_def reg gpio_INVALID_def fallible_nofault epd0_def world1_def
          Epd7in5V2Width_def Epd7in5V2Height_def)
qed

lemma New_geometry:
  assumes "New dcPin csPin rstPin busyPin w = Some (Inr e, w')"
  shows "geometry e"
  using assms
  by (auto simp: New_def attempt_def by_name_def geometry_def
           split: option.splits prod.splits if_splits)

subsection \<open>The bits of the bytes Convert stores\<close>

lemma nth_frame: "k < 48000 \<Longrightarrow> frame img ! k = frame_byte img k"
  by (simp add: frame_def)

lemma Palette_Index_colors:
  "Palette_Index [color_Black, color_White] color_Black = 0"
  "Palette_Index [color_Black, color_White] color_White = 1"
  "Palette_Index [color_Black, color_White] (0, 0, 0, 0) = 0"
  by (simp_all add: Palette_Index_def color_Black_def color_White_def sqDiff_def Let_def)

lemma Palette_Index_two: "Palette_Index [a, b] c = 0 \<or> Palette_Index [a, b] c = 1"
  by (cases a; cases b; cases c) (simp add: Palette_Index_def Let_def)

lemma Convert_bit_two: "Convert_bit img i j = 0 \<or> Convert_bit img i j = 1"
  using Palette_Index_two by (simp add: Convert_bit_def bgColor_def)

lemma bit_msb_byte: "bit (128 :: byte) q = (q = 7)"
proof -
  have "bit (2 ^ 7 :: byte) q = (q = 7)"
    unfolding bit_exp_iff by (auto simp: possible_bit_word)
  then show ?thesis by simp
qed

lemma pixel_mask_bit:
  assumes "m < 8" "n < 8"
  shows "bit (pixel_mask img (8 * c + int m) j) n = (Convert_bit img (8 * c + int m) j = 1 \<and> n = 7 - m)"
proof -
  have "(8 * c + int m) mod 8 = int m"
    using assms by simp
  moreover have "bit (drop_bit m (128 :: byte)) n = bit (128 :: byte) (m + n)"
    by (simp only: bit_drop_bit_eq comp_def)
  then have "bit (drop_bit m (128 :: byte)) n = (n = 7 - m)"
    using assms unfolding bit_msb_byte by auto
  ultimately show ?thesis
    by (simp add: pixel_mask_def AutoMeasurementVcom_def)
qed

lemma bit_Convert_byte:
  assumes "k < 8"
  shows "bit (Convert_byte img j c) (7 - k) = (Convert_bit img (8 * c + int k) j = 1)"
proof -
  have m: "bit (pixel_mask img (8 * c + int m) j) (7 - k) = (Convert_bit img (8 * c + int m) j = 1 \<and> k = m)"
    if "m < 8" for m
    using pixel_mask_bit [OF that, of "7 - k" img c j] assms that by auto
  have ms:
    "bit (pixel_mask img (8 * c) j) (7 - k) = (Convert_bit img (8 * c) j = 1 \<and> k = 0)"
    "bit (pixel_mask img (8 * c + 1) j) (7 - k) = (Convert_bit img (8 * c + 1) j = 1 \<and> k = 1)"
    "bit (pixel_mask img (8 * c + 2) j) (7 - k) = (Convert_bit img (8 * c + 2) j = 1 \<and> k = 2)"
    "bit (pixel_mask img (8 * c + 3) j) (7 - k) = (Convert_bit img (8 * c + 3) j = 1 \<and> k = 3)"
    "bit (pixel_mask img (8 * c + 4) j) (7 - k) = (Convert_bit img (8 * c + 4) j = 1 \<and> k = 4)"
    "bit (pixel_mask img (8 * c + 5) j) (7 - k) = (Convert_bit img (8 * c + 5) j = 1 \<and> k = 5)"
    "bit (pixel_mask img (8 * c + 6) j) (7 - k) = (Convert_bit img (8 * c + 6) j = 1 \<and> k = 6)"
    "bit (pixel_mask img (8 * c + 7) j) (7 - k) = (Convert_bit img (8 * c + 7) j = 1 \<and> k = 7)"
    using m [of 0] m [of 1] m [of 2] m [of 3] m [of 4] m [of 5] m [of 6] m [of 7] by simp_all
  have split: "bit (Convert_byte img j c) (7 - k) =
     ((Convert_bit img (8 * c) j = 1 \<and> k = 0) \<or> (Convert_bit img (8 * c + 1) j = 1 \<and> k = 1) \<or>
      (Convert_bit img (8 * c + 2) j = 1 \<and> k = 2) \<or> (Convert_bit img (8 * c + 3) j = 1 \<and> k = 3) \<or>
      (Convert_bit img (8 * c + 4) j = 1 \<and> k = 4) \<or> (Convert_bit img (8 * c + 5) j = 1 \<and> k = 5) \<or>
      (Convert_bit img (8 * c + 6) j = 1 \<and> k = 6) \<or> (Convert_bit img (8 * c + 7) j = 1 \<and> k = 7))"
    unfolding Convert_byte_def bit_or_iff ms by (simp add: PanelSetting_def)
  have "k = 0 \<or> k = 1 \<or> k = 2 \<or> k = 3 \<or> k = 4 \<or> k = 5 \<or> k = 6 \<or> k = 7"
    using assms by arith
  then show ?thesis
    unfolding split by (elim disjE) simp_all
qed

lemma Convert_nth:
  assumes "geometry e" "c < 100" "j < 480"
  shows "buffer_of (Convert e img) ! (j * 100 + c) = Convert_byte img (int j) (int c)"
proof -
  have "j * 100 + c < 48000"
    using assms by simp
  moreover have "(j * 100 + c) div 100 = j" "(j * 100 + c) mod 100 = c"
    using assms by simp_all
  ultimately show ?thesis
    using assms(1) by (simp add: Convert_frame buffer_of_def nth_frame frame_byte_def)
qed

lemma Convert_bit_img1:
  "Convert_bit img1 i 0 = (if i = 0 \<or> i = 5 then 0 else 1)"
  by (simp add: Convert_bit_def img1_def Dx_def Dy_def bgColor_def Palette_Index_colors)

lemma Convert_bit_img_sub:
  "Convert_bit img_sub i 0 = (if i < 8 then 0 else 1)"
  by (simp add: Convert_bit_def img_sub_def Dx_def Dy_def bgColor_def Palette_Index_colors)

lemma Convert_bit_img_sub_all:
  "Convert_bit img_sub i j = (if i < 8 \<and> j < 1 then 0 else 1)"
  by (simp add: Convert_bit_def img_sub_def Dx_def Dy_def bgColor_def Palette_Index_colors)

lemma Convert_bit_img_sub_black_all:
  "Convert_bit img_sub_black i j = (if i < 8 \<and> j < 1 then 0 else 1)"
  by (simp add: Convert_bit_def img_sub_black_def Dx_def Dy_def bgColor_def Palette_Index_colors)

text \<open>
  \<^verbatim>\<open>Convert\<close> never reads a pixel of the two sub-images: it reads \<^verbatim>\<open>At(0, 0)\<close> to
  \<^verbatim>\<open>At(7, 0)\<close>, left of their bounds, so the white one and the black one give the same
  buffer.
\<close>

lemma Convert_img_sub_same: "Convert epd0 img_sub = Convert epd0 img_sub_black"
proof -
  have "Convert_bit img_sub = Convert_bit img_sub_black"
    by (intro ext) (simp only: Convert_bit_img_sub_all Convert_bit_img_sub_black_all)
  then have "pixel_mask img_sub = pixel_mask img_sub_black"
    by (intro ext) (simp only: pixel_mask_def)
  then have "Convert_byte img_sub = Convert_byte img_sub_black"
    by (intro ext) (simp only: Convert_byte_def)
  then have "frame_byte img_sub = frame_byte img_sub_black"
    by (intro ext) (simp only: frame_byte_def)
  then have "frame img_sub = frame img_sub_black"
    by (simp only: frame_def)
  then show ?thesis
    by (simp only: Convert_frame [OF geometry_epd0])
qed

lemma Convert_pixel_bit:
  assumes "geometry e" "c < 100" "j < 480" "k < 8"
  shows "\<exists>buffer. Convert e img = Inr buffer \<and>
           bit (buffer ! (j * 100 + c)) (7 - k) = (Convert_bit img (int (8 * c + k)) (int j) = 1) \<and>
           (Convert_bit img (int (8 * c + k)) (int j) = 0 \<or> Convert_bit img (int (8 * c + k)) (int j) = 1)"
proof -
  have "buffer_of (Convert e img) ! (j * 100 + c) = Convert_byte img (int j) (int c)"
    using assms(1-3) by (rule Convert_nth)
  moreover have "Convert e img = Inr (buffer_of (Convert e img))"
    using assms(1) by (simp add: Convert_frame buffer_of_def)
  moreover have "bit (Convert_byte img (int j) (int c)) (7 - k) = (Convert_bit img (8 * int c + int k) (int j) = 1)"
    using assms(4) by (rule bit_Convert_byte)
  ultimately show ?thesis
    using Convert_bit_two [of img "int (8 * c + k)" "int j"] by (intro exI [of _ "buffer_of (Convert e img)"]) simp
qed

text \<open>
  Padding. \<^verbatim>\<open>Convert\<close> pads by the image's extent: a panel pixel at or beyond
  \<^verbatim>\<open>Bounds().Dx()\<close> or \<^verbatim>\<open>Bounds().Dy()\<close> is white. For an image whose bounds start at the
  origin these are the panel pixels outside the bounds.
\<close>

lemma Convert_pads_beyond_extent:
  assumes "geometry e" "c < 100" "j < 480" "k < 8"
    and "Dx (Bounds img) \<le> int (8 * c + k) \<or> Dy (Bounds img) \<le> int j"
  shows "\<exists>buffer. Convert e img = Inr buffer \<and> bit (buffer ! (j * 100 + c)) (7 - k)"
proof -
  have pad: "Convert_bit img (int (8 * c + k)) (int j) = 1"
    using assms(5) by (auto simp: Convert_bit_def bgColor_def)
  from Convert_pixel_bit [OF assms(1-4), of img] obtain buffer where
    "Convert e img = Inr buffer"
    "bit (buffer ! (j * 100 + c)) (7 - k) = (Convert_bit img (int (8 * c + k)) (int j) = 1)"
    by blast
  with pad show ?thesis
    by blast
qed

lemma Convert_pads_outside_bounds_at_origin:
  assumes "geometry e" "c < 100" "j < 480" "k < 8"
    and "X (Min_pt (Bounds img)) = 0" "Y (Min_pt (Bounds img)) = 0"
    and "\<not> Point_In (int (8 * c + k)) (int j) (Bounds img)"
  shows "\<exists>buffer. Convert e img = Inr buffer \<and> bit (buffer ! (j * 100 + c)) (7 - k)"
proof -
  have "Dx (Bounds img) \<le> int (8 * c + k) \<or> Dy (Bounds img) \<le> int j"
    using assms(5-7) by (auto simp: Point_In_def Dx_def Dy_def)
  with assms(1-4) show ?thesis
    by (rule Convert_pads_beyond_extent)
qed

subsection \<open>Bytes on the channel\<close>

lemma tx_bytes_append [simp]: "tx_bytes (a @ b) = tx_bytes a @ tx_bytes b"
  by (induction a rule: tx_bytes.induct) simp_all

lemma tx_bytes_command_frame [simp]: "tx_bytes (command_frame e c) = [c]"
  by (simp add: command_frame_def)

lemma tx_bytes_data_frames [simp]: "tx_bytes (data_frames e ds) = ds"
  by (induction ds) (simp_all add: data_frames_def data_frame_def)

lemma tx_bytes_wait_events [simp]: "tx_bytes (wait_events e n) = []"
  by (induction n) (simp_all add: wait_events_def)

lemma released_world0 [simp]: "released_after world0 0"
  by (simp add: released_after_def world0_def)

lemma released_world1 [simp]: "released_after world1 0"
  by (simp add: world1_def)

lemma skip_reads_world0 [simp]: "skip_reads n world0 = world0"
  by (simp add: skip_reads_def world0_def)

lemma skip_reads_world1 [simp]: "skip_reads n world1 = world1"
  by (simp add: world1_def skip_emit)

lemma geometry_frame_bytes: "geometry e \<Longrightarrow> nat (heightByte e) * (nat (widthByte e) * 4) = 192000"
  by (simp add: geometry_simps)

subsection \<open>The expansion of a buffer byte\<close>

lemma length_expansion [simp]: "length (expansion x) = 4"
  by (simp add: expansion_def)

lemma length_concat_expansion: "length (concat (map expansion img)) = 4 * length img"
  by (induction img) simp_all

lemma nibble_pair: "push_bit 4 (nibble x a) OR nibble x b \<in> {0x00, 0x03, 0x30, 0x33}"
  by (simp add: nibble_def)

lemma set_expansion: "set (expansion x) \<subseteq> {0x00, 0x03, 0x30, 0x33}"
  using nibble_pair [of x 7 6] nibble_pair [of x 5 4] nibble_pair [of x 3 2] nibble_pair [of x 1 0]
  by (simp add: expansion_def)

lemma set_concat_expansion: "set (concat (map expansion img)) \<subseteq> {0x00, 0x03, 0x30, 0x33}"
  using set_expansion by auto

lemma expansion_white [simp]: "expansion 0xFF = [0x33, 0x33, 0x33, 0x33]"
  by (simp add: expansion_def nibble_def)

lemma concat_replicate_four: "concat (replicate n [x, x, x, x]) = replicate (4 * n) x"
proof (induction n)
  case 0
  show ?case by simp
next
  case (Suc n)
  have "replicate (4 + m) x = x # x # x # x # replicate m x" for m
    by (simp add: numeral_eq_Suc)
  with Suc show ?case by simp
qed

lemma Display_released:
  assumes "nofault w" "geometry e" "48000 \<le> length img" "released_after w n"
  shows "Display e img w =
     Some (None,
       emit (LogPrintln ''Start e-paper display'' # command_frame e DataStartTransmission1 @
             data_frames e (concat (map expansion (take 48000 img))) @
             LogPrintln ''End e-paper display image process'' #
             command_frame e DisplayRefresh @ [TimeSleep 100] @ wait_events e n @
             [LogPrintln ''End e-paper display''])
         (skip_reads (Suc n) w))"
  using assms
  by (simp add: Display_nofault waitUntilIdle_released skip_emit log_Println_def infallible_def)

lemma trace_world0 [simp]: "trace world0 = []"
  by (simp add: world0_def)

lemma Display_white_world0:
  "Display epd0 (replicate 48000 0xFF) world0 =
     Some (None,
       emit (LogPrintln ''Start e-paper display'' # command_frame epd0 DataStartTransmission1 @
             data_frames epd0 (replicate (4 * 48000) 0x33) @
             LogPrintln ''End e-paper display image process'' #
             command_frame epd0 DisplayRefresh @ [TimeSleep 100] @ wait_events epd0 0 @
             [LogPrintln ''End e-paper display''])
         world0)"
proof -
  have "concat (map expansion (replicate 48000 0xFF)) = concat (replicate 48000 [0x33, 0x33, 0x33, 0x33 :: byte])"
    by simp
  also have "\<dots> = replicate (4 * 48000) 0x33"
    by (rule concat_replicate_four)
  finally have ds: "concat (map expansion (replicate 48000 0xFF)) = replicate (4 * 48000) 0x33" .
  show ?thesis
    using Display_released [of world0 epd0 "replicate 48000 0xFF" 0]
    by (simp add: concat_replicate_four)
qed

subsection \<open>Initialisation and sleep in a quiet world\<close>

lemma quiet_emit [simp]: "quiet (emit evs w) = quiet w"
  by (simp add: quiet_def) (simp add: emit_def)

lemma quiet_nofault: "quiet w \<Longrightarrow> nofault w"
  by (simp add: quiet_def)

lemma quiet_released: "quiet w \<Longrightarrow> released_after w 0"
  by (simp add: quiet_def released_after_def)

lemma quiet_skip: "quiet w \<Longrightarrow> skip_reads n w = w"
proof -
  assume "quiet w"
  then have "(\<lambda>k. busy_levels w (k + n)) = busy_levels w"
    by (auto simp: quiet_def)
  then show ?thesis
    by (simp add: skip_reads_def)
qed

lemma quiet_world0 [simp]: "quiet world0"
  by (simp add: quiet_def) (simp add: world0_def)

lemma quiet_world1 [simp]: "quiet world1"
  by (simp add: world1_def)

lemma runsD: "runs p evs \<Longrightarrow> quiet w \<Longrightarrow> p w = Some (None, emit evs w)"
  by (simp add: runs_def)

lemma sends_runs: "sends p evs \<Longrightarrow> runs p evs"
  by (simp add: runs_def sends_def quiet_def)

lemma runs_seq_Nil: "runs (seq []) []"
  by (simp add: runs_def)

lemma runs_seq_Cons: "runs p a \<Longrightarrow> runs (seq ps) b \<Longrightarrow> runs (seq (p # ps)) (a @ b)"
  by (simp add: runs_def)

lemma runs_waitUntilIdle: "runs (waitUntilIdle e) (wait_events e 0)"
  unfolding runs_def
proof (intro allI impI)
  fix w assume q: "quiet w"
  show "waitUntilIdle e w = Some (None, emit (wait_events e 0) w)"
    using waitUntilIdle_released [OF quiet_released [OF q], of e] quiet_skip [OF q]
    by simp
qed

lemma runs_sendCommand: "runs (sendCommand e c) (command_frame e c)"
  by (rule sends_runs) (rule sends_sendCommand)

lemma runs_sendData: "runs (sendData e d) (data_frames e [d])"
  using sends_runs [OF sends_sendData [of e d]] by (simp add: data_frames_def)

lemma runs_time_Sleep: "runs (time_Sleep ms) [TimeSleep ms]"
  by (rule sends_runs) (rule sends_time_Sleep)

lemma runs_log_Println: "runs (log_Println s) [LogPrintln s]"
  by (rule sends_runs) (rule sends_log_Println)

lemma runs_Reset: "runs (Reset e) (reset_pulse e)"
proof -
  have "runs (Reset e) ([PinOut (rst e) High] @ [TimeSleep 20] @ [PinOut (rst e) Low] @ [TimeSleep 2] @
                        [PinOut (rst e) High] @ [TimeSleep 20] @ [])"
    unfolding Reset_def pin_Out_def
    by (intro runs_seq_Cons runs_seq_Nil runs_time_Sleep sends_runs [OF sends_fallible])
  then show ?thesis by (simp add: reset_pulse_def)
qed

lemmas runs_steps = runs_seq_Cons runs_seq_Nil runs_Reset runs_sendCommand runs_sendData
  runs_time_Sleep runs_log_Println runs_waitUntilIdle

lemma runs_InitFast:
  "runs (InitFast e)
     (reset_pulse e @ command_frame e 0x00 @ data_frames e [0x1F] @
      command_frame e 0x50 @ data_frames e [0x10, 0x07] @
      command_frame e 0x04 @ [TimeSleep 100] @ wait_events e 0 @
      command_frame e 0x06 @ data_frames e [0x27, 0x27, 0x18, 0x17] @
      command_frame e 0xE0 @ data_frames e [0x02, 0xE5, 0x5A])"
proof -
  have "runs (InitFast e)
     (reset_pulse e @ command_frame e 0x00 @ data_frames e [0x1F] @
      command_frame e 0x50 @ data_frames e [0x10] @ data_frames e [0x07] @
      command_frame e 0x04 @ [TimeSleep 100] @ wait_events e 0 @
      command_frame e 0x06 @ data_frames e [0x27] @ data_frames e [0x27] @ data_frames e [0x18] @
      data_frames e [0x17] @
      command_frame e 0xE0 @ data_frames e [0x02] @ data_frames e [0xE5] @ data_frames e [0x5A] @ [])"
    unfolding InitFast_def by (intro runs_steps)
  then show ?thesis
    by (simp add: data_frames_def)
qed

lemma runs_InitPart:
  "runs (InitPart e)
     (reset_pulse e @ command_frame e 0x00 @ data_frames e [0x1F] @
      command_frame e 0x04 @ [TimeSleep 100] @ wait_events e 0 @
      command_frame e 0xE0 @ data_frames e [0x02] @
      command_frame e 0xE5 @ data_frames e [0x6E])"
proof -
  have "runs (InitPart e)
     (reset_pulse e @ command_frame e 0x00 @ data_frames e [0x1F] @
      command_frame e 0x04 @ [TimeSleep 100] @ wait_events e 0 @
      command_frame e 0xE0 @ data_frames e [0x02] @
      command_frame e 0xE5 @ data_frames e [0x6E] @ [])"
    unfolding InitPart_def by (intro runs_steps)
  then show ?thesis
    by simp
qed

lemma runs_Init:
  "runs (Init e)
     (LogPrintln ''e-paper init'' # reset_pulse e @
      command_frame e PowerSetting @ data_frames e [0x07, 0x07, 0x3f, 0x3f] @
      command_frame e 0x06 @ data_frames e [0x17, 0x17, 0x28, 0x17] @
      command_frame e 0x04 @ [TimeSleep 100] @ wait_events e 0 @
      command_frame e 0x00 @ data_frames e [0x1F] @
      command_frame e 0x61 @ data_frames e [0x03, 0x20, 0x01, 0xE0] @
      command_frame e 0x15 @ data_frames e [0x00] @
      command_frame e 0x50 @ data_frames e [0x10, 0x07] @
      command_frame e 0x60 @ data_frames e [0x22])"
proof -
  have "runs (Init e)
     ([LogPrintln ''e-paper init''] @ reset_pulse e @
      command_frame e PowerSetting @
      data_frames e [0x07] @ data_frames e [0x07] @ data_frames e [0x3f] @ data_frames e [0x3f] @
      command_frame e 0x06 @
      data_frames e [0x17] @ data_frames e [0x17] @ data_frames e [0x28] @ data_frames e [0x17] @
      command_frame e 0x04 @ [TimeSleep 100] @ wait_events e 0 @
      command_frame e 0x00 @ data_frames e [0x1F] @
      command_frame e 0x61 @
      data_frames e [0x03] @ data_frames e [0x20] @ data_frames e [0x01] @ data_frames e [0xE0] @
      command_frame e 0x15 @ data_frames e [0x00] @
      command_frame e 0x50 @ data_frames e [0x10] @ data_frames e [0x07] @
      command_frame e 0x60 @ data_frames e [0x22] @ [])"
    unfolding Init_def by (intro runs_steps)
  then show ?thesis
    by (simp add: data_frames_def)
qed

lemma runs_Sleep:
  "runs (Sleep e)
     (command_frame e PowerOff @ wait_events e 0 @ command_frame e DeepSleep @ data_frames e [0xA5])"
proof -
  have "runs (Sleep e)
     (command_frame e PowerOff @ wait_events e 0 @ command_frame e DeepSleep @ data_frames e [0xA5] @ [])"
    unfolding Sleep_def by (intro runs_steps)
  then show ?thesis
    by simp
qed

lemma after_runs: "runs p evs \<Longrightarrow> quiet w \<Longrightarrow> after p w = emit evs w"
  by (simp add: after_def runs_def)

lemma world_slept_eq:
  "world_slept =
     emit (LogPrintln ''e-paper init'' # reset_pulse epd0 @
      command_frame epd0 PowerSetting @ data_frames epd0 [0x07, 0x07, 0x3f, 0x3f] @
      command_frame epd0 0x06 @ data_frames epd0 [0x17, 0x17, 0x28, 0x17] @
      command_frame epd0 0x04 @ [TimeSleep 100] @ wait_events epd0 0 @
      command_frame epd0 0x00 @ data_frames epd0 [0x1F] @
      command_frame epd0 0x61 @ data_frames epd0 [0x03, 0x20, 0x01, 0xE0] @
      command_frame epd0 0x15 @ data_frames epd0 [0x00] @
      command_frame epd0 0x50 @ data_frames epd0 [0x10, 0x07] @
      command_frame epd0 0x60 @ data_frames epd0 [0x22] @
      command_frame epd0 PowerOff @ wait_events epd0 0 @ command_frame epd0 DeepSleep @
      data_frames epd0 [0xA5]) world1"
  by (simp add: world_slept_def after_runs [OF runs_Init] after_runs [OF runs_Sleep])

lemma quiet_world_slept [simp]: "quiet world_slept"
  by (simp add: world_slept_eq)

lemma tx_bytes_reset_pulse [simp]: "tx_bytes (reset_pulse e) = []"
  by (simp add: reset_pulse_def)

lemma tx_bytes_world1 [simp]: "tx_bytes (trace world1) = []"
  by (simp add: world1_def emit_def)

lemma trace_emit [simp]: "trace (emit evs w) = trace w @ evs"
  by (simp add: emit_def)

lemma tx_bytes_world_slept:
  "tx_bytes (trace world_slept) =
     [0x01, 0x07, 0x07, 0x3f, 0x3f, 0x06, 0x17, 0x17, 0x28, 0x17, 0x04, 0x00, 0x1F,
      0x61, 0x03, 0x20, 0x01, 0xE0, 0x15, 0x00, 0x50, 0x10, 0x07, 0x60, 0x22,
      0x02, 0x07, 0xA5]"
  by (simp add: world_slept_eq PowerSetting_def PowerOff_def DeepSleep_def)

lemma Clear_released:
  assumes "nofault w" "geometry e" "released_after w n"
  shows "Clear e w =
     Some (None,
       emit (command_frame e DataStartTransmission1 @ data_frames e (replicate 192000 0x33) @
             command_frame e DisplayRefresh @ [TimeSleep 100] @ wait_events e n)
         (skip_reads (Suc n) w))"
  using assms
  by (simp add: Clear_nofault waitUntilIdle_released skip_emit geometry_frame_bytes)

lemma returns_nil_Some [simp]: "returns_nil (Some (None, w))"
  by (simp add: returns_nil_def)

lemma sent_Some [simp]: "sent (Some (err, w)) = tx_bytes (trace w)"
  by (simp add: sent_def)

lemma trace_skip_reads [simp]: "trace (skip_reads n w) = trace w"
  by (simp add: skip_reads_def)

subsection \<open>Display on a short buffer\<close>

lemma abortsD: "aborts p err evs \<Longrightarrow> nofault w \<Longrightarrow> p w = Some (Some err, emit evs w)"
  by (simp add: aborts_def)

lemma upt_shift: "map f [0..<Suc n] = f 0 # map (\<lambda>k. f (Suc k)) [0..<n]"
proof -
  have "[0..<Suc n] = 0 # map Suc [0..<n]"
    by (simp only: map_Suc_upt) (simp add: upt_conv_Cons del: upt_Suc)
  then show ?thesis
    by (simp only: list.map map_map comp_def)
qed

lemma for_range_aborts:
  assumes "lo \<le> m" "m < hi"
    and "\<And>j. lo \<le> j \<Longrightarrow> j < m \<Longrightarrow> sends (body j) (evs j)"
    and "aborts (body m) err final"
  shows "aborts (for_range lo hi body) err
           (concat (map (\<lambda>k. evs (lo + int k)) [0..<nat (m - lo)]) @ final)"
  using assms(1,3)
proof (induction n \<equiv> "nat (m - lo)" arbitrary: lo)
  case 0
  then have lo: "lo = m" by simp
  show ?case
    unfolding aborts_def
  proof (intro allI impI)
    fix w assume "nofault w"
    then show "for_range lo hi body w =
        Some (Some err, emit (concat (map (\<lambda>k. evs (lo + int k)) [0..<nat (m - lo)]) @ final) w)"
      using abortsD [OF assms(4)] assms(2) lo by (subst for_range.simps) simp
  qed
next
  case (Suc n)
  then have lt: "lo < m" by linarith
  have n: "n = nat (m - (lo + 1))" using Suc.hyps(2) by linarith
  have rest: "aborts (for_range (lo + 1) hi body) err
           (concat (map (\<lambda>k. evs (lo + 1 + int k)) [0..<nat (m - (lo + 1))]) @ final)"
    by (rule Suc.hyps(1) [OF n]) (insert lt, simp_all add: Suc.prems)
  have first: "sends (body lo) (evs lo)"
    using Suc.prems lt by simp
  have "map (\<lambda>k. evs (lo + int k)) [0..<Suc n] = evs (lo + int 0) # map (\<lambda>k. evs (lo + int (Suc k))) [0..<n]"
    by (rule upt_shift)
  then have ev: "concat (map (\<lambda>k. evs (lo + int k)) [0..<nat (m - lo)]) =
             evs lo @ concat (map (\<lambda>k. evs (lo + 1 + int k)) [0..<nat (m - (lo + 1))])"
    unfolding Suc.hyps(2) [symmetric] n [symmetric] by (simp add: add.assoc ac_simps)
  show ?case
    unfolding aborts_def
  proof (intro allI impI)
    fix w assume nf: "nofault w"
    have "for_range lo hi body w = for_range (lo + 1) hi body (emit (evs lo) w)"
      using lt assms(2) sendsD [OF first nf] by (subst for_range.simps) simp
    also have "\<dots> = Some (Some err, emit (concat (map (\<lambda>k. evs (lo + 1 + int k)) [0..<nat (m - (lo + 1))]) @ final)
                               (emit (evs lo) w))"
      using abortsD [OF rest] nf by simp
    finally show "for_range lo hi body w =
        Some (Some err, emit (concat (map (\<lambda>k. evs (lo + int k)) [0..<nat (m - lo)]) @ final) w)"
      by (simp add: ev)
  qed
qed

lemma seq_aborts_Cons: "aborts p err evs \<Longrightarrow> nofault w \<Longrightarrow> seq (p # ps) w = Some (Some err, emit evs w)"
  by (simp add: aborts_def)

lemma sends_Display_byte_in:
  assumes "geometry e" "0 \<le> i" "0 \<le> j" "i + j * 100 < int (length img)"
  shows "sends (Display_byte e img j i) (data_frames e (expansion (img ! nat (i + j * 100))))"
proof -
  have "\<not> (i + j * 100 < 0 \<or> int (length img) \<le> i + j * 100)"
    using assms by simp
  then show ?thesis
    using assms(1) sends_Display_bits [of e "img ! nat (i + j * 100)"]
    by (simp add: sends_def Display_byte_def geometry_simps Let_def)
qed

lemma aborts_Display_byte:
  assumes "geometry e" "int (length img) \<le> i + j * 100"
  shows "aborts (Display_byte e img j i) (RuntimePanic ''index out of range'') []"
  using assms by (simp add: aborts_def Display_byte_def geometry_simps Let_def)

lemma nat_index: "nat (int k + int a * 100) = k + a * 100"
  by (simp add: nat_add_distrib nat_mult_distrib)

lemma aborts_Display_loops:
  assumes "geometry e" "length img < 48000"
  shows "aborts (for_range 0 (heightByte e) (\<lambda>j. for_range 0 (widthByte e) (\<lambda>i. Display_byte e img j i)))
           (RuntimePanic ''index out of range'') (data_frames e (concat (map expansion img)))"
proof -
  let ?f = "\<lambda>x. data_frames e (expansion x)"
  let ?panic = "RuntimePanic ''index out of range''"
  define jn where "jn = length img div 100"
  define cn where "cn = length img mod 100"
  have len: "length img = jn * 100 + cn"
    by (simp add: jn_def cn_def)
  have jn: "jn < 480" and cn: "cn < 100"
    using assms(2) by (simp_all add: jn_def cn_def)
  have full: "sends (for_range 0 100 (\<lambda>i. Display_byte e img j i))
               (concat (map (\<lambda>k. ?f (img ! nat (0 + int k + j * 100))) [0..<nat (100 - 0)]))"
    if "0 \<le> j" "j < int jn" for j
    using that assms(1) len by (intro sends_for_range_nat sends_Display_byte_in) simp_all
  have part: "aborts (for_range 0 100 (\<lambda>i. Display_byte e img (int jn) i)) ?panic
               (concat (map (\<lambda>k. ?f (img ! nat (0 + int k + int jn * 100))) [0..<nat (int cn - 0)]) @ [])"
    using assms(1) len cn
    by (intro for_range_aborts sends_Display_byte_in aborts_Display_byte) simp_all
  have "aborts (for_range 0 480 (\<lambda>j. for_range 0 100 (\<lambda>i. Display_byte e img j i))) ?panic
          (concat (map (\<lambda>a. concat (map (\<lambda>k. ?f (img ! nat (0 + int k + (0 + int a) * 100))) [0..<nat (100 - 0)]))
             [0..<nat (int jn - 0)]) @
           (concat (map (\<lambda>k. ?f (img ! nat (0 + int k + int jn * 100))) [0..<nat (int cn - 0)]) @ []))"
    using jn by (intro for_range_aborts full part) simp_all
  then have a: "aborts (for_range 0 480 (\<lambda>j. for_range 0 100 (\<lambda>i. Display_byte e img j i))) ?panic
          (concat (map (\<lambda>a. concat (map (\<lambda>k. ?f (img ! (k + a * 100))) [0..<100])) [0..<jn]) @
           concat (map (\<lambda>k. ?f (img ! (k + jn * 100))) [0..<cn]))"
    by (simp add: nat_index)
  have "jn * 100 \<le> length img"
    using len by simp
  then have rows: "concat (map (\<lambda>a. concat (map (\<lambda>k. ?f (img ! (k + a * 100))) [0..<100])) [0..<jn]) =
               concat (map ?f (take (jn * 100) img))"
    by (rule grid_concat)
  have "map (\<lambda>k. img ! (k + jn * 100)) [0..<cn] = take cn (drop (jn * 100) img)"
    by (rule take_drop_nth) (simp add: len)
  then have "map ?f (map (\<lambda>k. img ! (k + jn * 100)) [0..<cn]) = map ?f (take cn (drop (jn * 100) img))"
    by (rule arg_cong)
  then have "map (\<lambda>k. ?f (img ! (k + jn * 100))) [0..<cn] = map ?f (take cn (drop (jn * 100) img))"
    by (simp add: comp_def)
  then have lastrow: "concat (map (\<lambda>k. ?f (img ! (k + jn * 100))) [0..<cn]) = concat (map ?f (drop (jn * 100) img))"
    by (simp add: len)
  have whole: "concat (map ?f (take (jn * 100) img)) @ concat (map ?f (drop (jn * 100) img)) = concat (map ?f img)"
    by (simp only: concat_append [symmetric] map_append [symmetric] append_take_drop_id)
  have "aborts (for_range 0 480 (\<lambda>j. for_range 0 100 (\<lambda>i. Display_byte e img j i))) ?panic
          (concat (map ?f img))"
    using a unfolding rows lastrow whole .
  then show ?thesis
    using assms(1) by (simp add: geometry_simps data_frames_concat)
qed

lemma Display_short:
  assumes "nofault w" "geometry e" "length img < 48000"
  shows "Display e img w =
     Some (Some (RuntimePanic ''index out of range''),
       emit (LogPrintln ''Start e-paper display'' # command_frame e DataStartTransmission1 @
             data_frames e (concat (map expansion img))) w)"
  using assms
  by (simp add: Display_def seq_sends_Cons [OF sends_sendCommand] seq_sends_Cons [OF sends_log_Println]
        seq_aborts_Cons [OF aborts_Display_loops] del: seq.simps)

lemma Display_take:
  assumes "nofault w" "geometry e" "48000 \<le> length img"
  shows "Display e img w = Display e (take 48000 img) w"
  using assms by (simp add: Display_nofault)

section \<open>The claims\<close>

subsection \<open>Claim C1\<close>

text \<open>
  Claim C1, corrected. \<^verbatim>\<open>Convert\<close> does not pack two pixels per byte as two nibble
  codes: every byte of its buffer holds eight horizontally adjacent pixels, one bit each,
  leftmost pixel in the most significant bit. Bit \<open>7 - k\<close> of byte \<open>c\<close> of row \<open>j\<close> is 1
  exactly when \<^verbatim>\<open>bit\<close> is 1 for the panel pixel \<open>(8c + k, j)\<close> (white, or background),
  and \<^verbatim>\<open>bit\<close> is 0 or 1.
\<close>

theorem C1_Convert_one_bit_per_pixel:
  assumes "geometry e" "c < 100" "j < 480" "k < 8"
  shows "\<exists>buffer. Convert e img = Inr buffer \<and>
           bit (buffer ! (j * 100 + c)) (7 - k) = (Convert_bit img (int (8 * c + k)) (int j) = 1) \<and>
           (Convert_bit img (int (8 * c + k)) (int j) = 0 \<or> Convert_bit img (int (8 * c + k)) (int j) = 1)"
  using assms by (rule Convert_pixel_bit)

theorem C1_Convert_one_bit_per_pixel_witness:
  "\<exists>buffer. Convert epd0 img1 = Inr buffer \<and> bit (buffer ! 0) 2 = False"
  using C1_Convert_one_bit_per_pixel [of epd0 0 0 5 img1]
  by (simp add: Convert_bit_img1)

text \<open>
  The counterexample to C1 as stated: for the 8 by 1 image with black pixels at 0 and 5,
  byte 0 of the buffer is \<open>0x7B\<close> (nibbles 7 and B) and byte 1 is \<open>0xFF\<close> (nibbles F and
  F): three different nibble values in one buffer, so the nibbles are not drawn from two
  fixed codes, and byte 0 depends on eight pixels.
\<close>

theorem C1_counterexample:
  "buffer_of (Convert epd0 img1) ! 0 = 0x7B \<and> buffer_of (Convert epd0 img1) ! 1 = 0xFF \<and>
   drop_bit 4 (buffer_of (Convert epd0 img1) ! 0) = 0x7 \<and>
   take_bit 4 (buffer_of (Convert epd0 img1) ! 0) = 0xB \<and>
   drop_bit 4 (buffer_of (Convert epd0 img1) ! 1) = 0xF"
proof -
  have "buffer_of (Convert epd0 img1) ! (0 * 100 + 0) = Convert_byte img1 (int 0) (int 0)"
    by (rule Convert_nth) simp_all
  then have b0: "buffer_of (Convert epd0 img1) ! 0 = 0x7B"
    by (simp add: Convert_byte_def pixel_mask_def Convert_bit_img1 AutoMeasurementVcom_def PanelSetting_def)
  have "buffer_of (Convert epd0 img1) ! (0 * 100 + 1) = Convert_byte img1 (int 0) (int 1)"
    by (rule Convert_nth) simp_all
  then have b1: "buffer_of (Convert epd0 img1) ! 1 = 0xFF"
    by (simp add: Convert_byte_def pixel_mask_def Convert_bit_img1 AutoMeasurementVcom_def PanelSetting_def)
  show ?thesis
    unfolding b0 b1 by simp
qed

subsection \<open>Claim C2\<close>

text \<open>
  Claim C2, corrected. \<^verbatim>\<open>Display\<close> and \<^verbatim>\<open>Clear\<close> check no operating mode; the handle
  keeps none. In every world, whatever was or was not called before (the trace \<open>w\<close>
  carries is arbitrary: a controller never initialised, or put to sleep), if no platform
  call fails and the busy line is released they return \<^verbatim>\<open>nil\<close>, having transmitted the
  data-start command, the whole frame and the refresh command.
\<close>

theorem C2_no_mode_check:
  assumes "nofault w" "geometry e" "released_after w n" "length img = 48000"
  shows "returns_nil (Clear e w) \<and>
         sent (Clear e w) =
           tx_bytes (trace w) @ DataStartTransmission1 # replicate 192000 0x33 @ [DisplayRefresh] \<and>
         returns_nil (Display e img w) \<and>
         sent (Display e img w) =
           tx_bytes (trace w) @ DataStartTransmission1 # concat (map expansion img) @ [DisplayRefresh]"
  using assms
  by (simp add: Clear_released Display_released)

theorem C2_no_mode_check_witness:
  "returns_nil (Clear epd0 world_slept) \<and>
   sent (Clear epd0 world_slept) =
     tx_bytes (trace world_slept) @ DataStartTransmission1 # replicate 192000 0x33 @ [DisplayRefresh] \<and>
   returns_nil (Display epd0 (replicate 48000 0xFF) world_slept) \<and>
   sent (Display epd0 (replicate 48000 0xFF) world_slept) =
     tx_bytes (trace world_slept) @
     DataStartTransmission1 # concat (map expansion (replicate 48000 0xFF)) @ [DisplayRefresh]"
  by (rule C2_no_mode_check [where n = 0]) (simp_all add: quiet_nofault quiet_released)

text \<open>
  The counterexample to C2 as stated. On the handle \<^verbatim>\<open>New\<close> has just built, with no
  init call made (the spec's mode uninitialized), \<^verbatim>\<open>Clear\<close> returns \<^verbatim>\<open>nil\<close> and puts
  the data-start command, 192000 filler bytes and the refresh command on the channel.
  After \<^verbatim>\<open>Init\<close> and \<^verbatim>\<open>Sleep\<close> (the last bytes sent are power-off \<open>0x02\<close>, deep-sleep
  \<open>0x07\<close> and its payload \<open>0xA5\<close>: the spec's mode sleeping), \<^verbatim>\<open>Display\<close> returns
  \<^verbatim>\<open>nil\<close> and transmits the frame as well.
\<close>

theorem C2_counterexample:
  "New ''GPIO25'' ''GPIO8'' ''GPIO17'' ''GPIO24'' world0 = Some (Inr epd0, world1) \<and>
   tx_bytes (trace world1) = [] \<and>
   returns_nil (Clear epd0 world1) \<and>
   sent (Clear epd0 world1) = DataStartTransmission1 # replicate 192000 0x33 @ [DisplayRefresh] \<and>
   tx_bytes (trace world_slept) =
     [0x01, 0x07, 0x07, 0x3f, 0x3f, 0x06, 0x17, 0x17, 0x28, 0x17, 0x04, 0x00, 0x1F,
      0x61, 0x03, 0x20, 0x01, 0xE0, 0x15, 0x00, 0x50, 0x10, 0x07, 0x60, 0x22,
      0x02, 0x07, 0xA5] \<and>
   returns_nil (Display epd0 (replicate 48000 0xFF) world_slept) \<and>
   sent (Display epd0 (replicate 48000 0xFF) world_slept) =
     tx_bytes (trace world_slept) @ DataStartTransmission1 # replicate 192000 0x33 @ [DisplayRefresh]"
proof -
  have c: "Clear epd0 world1 =
     Some (None,
       emit (command_frame epd0 DataStartTransmission1 @ data_frames epd0 (replicate 192000 0x33) @
             command_frame epd0 DisplayRefresh @ [TimeSleep 100] @ wait_events epd0 0)
         (skip_reads (Suc 0) world1))"
    by (rule Clear_released) simp_all
  have d: "Display epd0 (replicate 48000 0xFF) world_slept =
     Some (None,
       emit (LogPrintln ''Start e-paper display'' # command_frame epd0 DataStartTransmission1 @
             data_frames epd0 (concat (map expansion (take 48000 (replicate 48000 0xFF)))) @
             LogPrintln ''End e-paper display image process'' #
             command_frame epd0 DisplayRefresh @ [TimeSleep 100] @ wait_events epd0 0 @
             [LogPrintln ''End e-paper display''])
         (skip_reads (Suc 0) world_slept))"
    by (rule Display_released) (simp_all add: quiet_nofault quiet_released)
  have ds: "concat (map expansion (take 48000 (replicate 48000 0xFF))) = replicate 192000 0x33"
    using concat_replicate_four [of 48000 "0x33 :: byte"] by simp
  show ?thesis
    unfolding c d ds
    by (simp add: New_world0 tx_bytes_world_slept)
qed

subsection \<open>Claim C3\<close>

text \<open>
  Claim C3, corrected. \<^verbatim>\<open>Display\<close> does not check the length of the buffer. Given a
  buffer longer than bytes-per-row times rows (48000) it behaves as on the first 48000
  bytes: it ignores the rest, transmits the frame and, once the busy line is released,
  returns \<^verbatim>\<open>nil\<close>. Given a shorter buffer it transmits the data-start command and the
  expansion of every byte present, and then stops in Go's index-out-of-range panic at
  the first missing byte: nothing is read past the buffer, no error value is returned and
  no refresh is triggered.
\<close>

theorem C3_Display_no_length_check:
  assumes "nofault w" "geometry e"
  shows "(48000 \<le> length img \<longrightarrow>
            Display e img w = Display e (take 48000 img) w \<and>
            (released_after w n \<longrightarrow> returns_nil (Display e img w))) \<and>
         (length img < 48000 \<longrightarrow>
            Display e img w =
              Some (Some (RuntimePanic ''index out of range''),
                emit (LogPrintln ''Start e-paper display'' # command_frame e DataStartTransmission1 @
                      data_frames e (concat (map expansion img))) w))"
proof (intro conjI impI)
  assume "48000 \<le> length img"
  with assms show "Display e img w = Display e (take 48000 img) w"
    by (rule Display_take)
next
  assume "48000 \<le> length img" "released_after w n"
  with assms show "returns_nil (Display e img w)"
    by (simp add: Display_released)
next
  assume "length img < 48000"
  with assms show "Display e img w =
              Some (Some (RuntimePanic ''index out of range''),
                emit (LogPrintln ''Start e-paper display'' # command_frame e DataStartTransmission1 @
                      data_frames e (concat (map expansion img))) w)"
    by (rule Display_short)
qed

theorem C3_Display_no_length_check_witness:
  "Display epd0 (replicate 48001 0xFF) world0 = Display epd0 (take 48000 (replicate 48001 0xFF)) world0 \<and>
   returns_nil (Display epd0 (replicate 48001 0xFF) world0) \<and>
   Display epd0 [0xFF] world0 =
     Some (Some (RuntimePanic ''index out of range''),
       emit (LogPrintln ''Start e-paper display'' # command_frame epd0 DataStartTransmission1 @
             data_frames epd0 (concat (map expansion [0xFF]))) world0)"
proof -
  note long = C3_Display_no_length_check [OF nofault_world0 geometry_epd0, of "replicate 48001 0xFF" 0]
  note short = C3_Display_no_length_check [OF nofault_world0 geometry_epd0, of "[0xFF]" 0]
  have l: "48000 \<le> length (replicate 48001 (0xFF :: byte))"
    by simp
  have s: "length [0xFF :: byte] < 48000"
    by simp
  show ?thesis
    using long short l s released_world0 by blast
qed

text \<open>
  The counterexample to C3 as stated. A buffer one byte too long is not rejected:
  \<^verbatim>\<open>Display\<close> returns \<^verbatim>\<open>nil\<close> and transmits the whole frame. An empty buffer is not
  rejected before transmission either: the data-start command is on the channel when
  the call panics.
\<close>

theorem C3_counterexample:
  "returns_nil (Display epd0 (replicate 48001 0xFF) world0) \<and>
   sent (Display epd0 (replicate 48001 0xFF) world0) =
     DataStartTransmission1 # replicate 192000 0x33 @ [DisplayRefresh] \<and>
   Display epd0 [] world0 =
     Some (Some (RuntimePanic ''index out of range''),
       emit (LogPrintln ''Start e-paper display'' # command_frame epd0 DataStartTransmission1) world0) \<and>
   sent (Display epd0 [] world0) = [DataStartTransmission1]"
proof -
  have d: "Display epd0 (replicate 48001 0xFF) world0 =
     Some (None,
       emit (LogPrintln ''Start e-paper display'' # command_frame epd0 DataStartTransmission1 @
             data_frames epd0 (concat (map expansion (take 48000 (replicate 48001 0xFF)))) @
             LogPrintln ''End e-paper display image process'' #
             command_frame epd0 DisplayRefresh @ [TimeSleep 100] @ wait_events epd0 0 @
             [LogPrintln ''End e-paper display''])
         (skip_reads (Suc 0) world0))"
    by (rule Display_released) simp_all
  have ds: "concat (map expansion (take 48000 (replicate 48001 0xFF))) = replicate 192000 0x33"
    using concat_replicate_four [of 48000 "0x33 :: byte"] by simp
  have s: "Display epd0 [] world0 =
     Some (Some (RuntimePanic ''index out of range''),
       emit (LogPrintln ''Start e-paper display'' # command_frame epd0 DataStartTransmission1 @
             data_frames epd0 (concat (map expansion []))) world0)"
    by (rule Display_short) simp_all
  show ?thesis
    unfolding d ds s by simp
qed

subsection \<open>Claim C4\<close>

text \<open>
  Claim C4, corrected. For every buffer of bytes-per-row times rows (48000) bytes,
  \<^verbatim>\<open>Display\<close> sends the data-start command and then, for each device-buffer byte in
  order, exactly four transport data bytes (the eight nibbles of its bit-to-nibble
  expansion, two per data byte), and finally triggers the display refresh: refresh
  command, 100 ms, busy wait.
\<close>

theorem C4_Display_sequence:
  assumes "nofault w" "geometry e" "length img = 48000"
  shows "Display e img w =
           seq [waitUntilIdle e, log_Println ''End e-paper display'']
             (emit (LogPrintln ''Start e-paper display'' # command_frame e DataStartTransmission1 @
                    data_frames e (concat (map expansion img)) @
                    LogPrintln ''End e-paper display image process'' #
                    command_frame e DisplayRefresh @ [TimeSleep 100]) w) \<and>
         length (expansion x) = 4 \<and>
         length (concat (map expansion img)) = 4 * 48000 \<and>
         (released_after w n \<longrightarrow>
          Display e img w =
            Some (None,
              emit (LogPrintln ''Start e-paper display'' # command_frame e DataStartTransmission1 @
                    data_frames e (concat (map expansion img)) @
                    LogPrintln ''End e-paper display image process'' #
                    command_frame e DisplayRefresh @ [TimeSleep 100] @ wait_events e n @
                    [LogPrintln ''End e-paper display''])
                (skip_reads (Suc n) w)))"
  using assms Display_nofault [of w e img] Display_released [of w e img n]
  by (simp add: length_concat_expansion)

theorem C4_Display_sequence_witness:
  "Display epd0 (replicate 48000 0xFF) world0 =
     Some (None,
       emit (LogPrintln ''Start e-paper display'' # command_frame epd0 DataStartTransmission1 @
             data_frames epd0 (concat (map expansion (replicate 48000 0xFF))) @
             LogPrintln ''End e-paper display image process'' #
             command_frame epd0 DisplayRefresh @ [TimeSleep 100] @ wait_events epd0 0 @
             [LogPrintln ''End e-paper display''])
         world0)"
  using C4_Display_sequence [of world0 epd0 "replicate 48000 0xFF" 0, THEN conjunct2, THEN conjunct2, THEN conjunct2]
  by simp

text \<open>
  The counterexample to C4 as stated: for one buffer byte the loop body sends four data
  bytes, and for the all-white buffer of 48000 bytes \<^verbatim>\<open>Display\<close> puts
  1 + 4 * 48000 + 1 = 192002 bytes on the channel, not 1 + 2 * 48000 + 1.
\<close>

theorem C4_counterexample:
  "Display_byte epd0 [0xFF] 0 0 world0 = Some (None, emit (data_frames epd0 [0x33, 0x33, 0x33, 0x33]) world0) \<and>
   sent (Display epd0 (replicate 48000 0xFF) world0) =
     DataStartTransmission1 # replicate (4 * 48000) 0x33 @ [DisplayRefresh] \<and>
   length (sent (Display epd0 (replicate 48000 0xFF) world0)) = 192002"
proof -
  have one: "Display_byte epd0 [0xFF] 0 0 world0 = Some (None, emit (data_frames epd0 [0x33, 0x33, 0x33, 0x33]) world0)"
    using sendsD [OF sends_Display_bits [of epd0 "0xFF"] nofault_world0]
    by (simp add: Display_byte_def)
  have "sent (Display epd0 (replicate 48000 0xFF) world0) =
     DataStartTransmission1 # replicate (4 * 48000) 0x33 @ [DisplayRefresh]"
    by (simp add: Display_white_world0)
  with one show ?thesis
    by simp
qed

subsection \<open>Claim C5\<close>

text \<open>
  Claim C5 fails on the code for the fast init. In a world without faults where the panel
  is idle, \<^verbatim>\<open>InitFast\<close> ends with the command \<open>0xE0\<close> followed by the three data bytes
  \<open>0x02\<close>, \<open>0xE5\<close>, \<open>0x5A\<close>: \<open>0xE5\<close> goes out with the data/command line high, as
  data. \<^verbatim>\<open>InitPart\<close> sends \<open>0xE0\<close> and \<open>0xE5\<close> both as commands, each followed by its
  data byte.
\<close>

theorem C5_InitFast_sends_E5_as_data:
  "InitFast epd0 world0 =
     Some (None,
       emit (reset_pulse epd0 @ command_frame epd0 0x00 @ data_frames epd0 [0x1F] @
             command_frame epd0 0x50 @ data_frames epd0 [0x10, 0x07] @
             command_frame epd0 0x04 @ [TimeSleep 100] @ wait_events epd0 0 @
             command_frame epd0 0x06 @ data_frames epd0 [0x27, 0x27, 0x18, 0x17] @
             command_frame epd0 0xE0 @ data_frame epd0 0x02 @ data_frame epd0 0xE5 @ data_frame epd0 0x5A)
         world0) \<and>
   InitPart epd0 world0 =
     Some (None,
       emit (reset_pulse epd0 @ command_frame epd0 0x00 @ data_frames epd0 [0x1F] @
             command_frame epd0 0x04 @ [TimeSleep 100] @ wait_events epd0 0 @
             command_frame epd0 0xE0 @ data_frame epd0 0x02 @
             command_frame epd0 0xE5 @ data_frame epd0 0x6E)
         world0)"
  using runsD [OF runs_InitFast quiet_world0, of epd0] runsD [OF runs_InitPart quiet_world0, of epd0]
  by (simp add: data_frames_def)

subsection \<open>Claim C6\<close>

text \<open>
  Claim C6. For every input image, whatever its dimensions, \<^verbatim>\<open>Convert\<close> on a handle
  built by \<^verbatim>\<open>New\<close> returns a buffer of exactly bytes-per-row times rows bytes, that is
  (panel width / 8) times the panel height.
\<close>

theorem C6_Convert_length:
  assumes "New dcPin csPin rstPin busyPin w = Some (Inr e, w')"
  shows "\<exists>buffer. Convert e img = Inr buffer \<and>
           int (length buffer) = widthByte e * heightByte e \<and>
           int (length buffer) = (Epd7in5V2Width div 8) * Epd7in5V2Height"
proof -
  have g: "geometry e"
    using assms by (rule New_geometry)
  then have "Convert e img = Inr (frame img)"
    by (rule Convert_frame)
  moreover have "length (frame img) = 48000"
    by (simp add: frame_def)
  ultimately show ?thesis
    using g by (simp add: geometry_simps Epd7in5V2Width_def Epd7in5V2Height_def)
qed

theorem C6_Convert_length_witness:
  "New ''GPIO25'' ''GPIO8'' ''GPIO17'' ''GPIO24'' world0 = Some (Inr epd0, world1) \<and>
   (\<exists>buffer. Convert epd0 img_big = Inr buffer \<and> int (length buffer) = 48000)"
  using C6_Convert_length [OF New_world0, of img_big] New_world0
  by (auto simp: epd0_def)

subsection \<open>Claim C7\<close>

text \<open>
  Claim C7 does not hold of the code: \<^verbatim>\<open>Convert\<close> compares the panel coordinate with the
  image's width and height only (\<^verbatim>\<open>i < Bounds().Dx() && j < Bounds().Dy()\<close>) and passes
  it to \<^verbatim>\<open>At\<close> unchanged, never offsetting by \<^verbatim>\<open>Bounds().Min\<close>. For an image whose
  bounds start at the origin the test is the test of the bounds and the claim holds
  (\<open>Convert_pads_outside_bounds_at_origin\<close>). The images \<open>img_sub\<close> and \<open>img_sub_black\<close>
  are 8 by 1, smaller than the panel, with the bounds \<open>(8,0)-(16,1)\<close>: the panel pixels
  \<open>(0,0)\<close> to \<open>(7,0)\<close> lie outside their bounds, yet \<^verbatim>\<open>Convert\<close> reads \<^verbatim>\<open>At(0, 0)\<close> to
  \<^verbatim>\<open>At(7, 0)\<close> there, the zero colour, nearest to black, and encodes the eight pixels as
  black (byte 0 is \<open>0x00\<close>), while the pixels \<open>(8,0)\<close> to \<open>(15,0)\<close>, which are the image, are
  padded white (byte 1 is \<open>0xFF\<close>) without being read: the white image and the black one
  give the same buffer.
\<close>

theorem C7_Convert_ignores_bounds_origin:
  "\<not> Point_In 0 0 (Bounds img_sub) \<and>
   Dx (Bounds img_sub) < Epd7in5V2Width \<and>
   Convert_bit img_sub 0 0 = 0 \<and>
   buffer_of (Convert epd0 img_sub) ! 0 = 0x00 \<and>
   buffer_of (Convert epd0 img_sub) ! 1 = 0xFF \<and>
   Point_In 8 0 (Bounds img_sub) \<and>
   At img_sub 8 0 = color_White \<and>
   At img_sub_black 8 0 = color_Black \<and>
   Convert epd0 img_sub = Convert epd0 img_sub_black"
proof -
  have "buffer_of (Convert epd0 img_sub) ! (0 * 100 + 0) = Convert_byte img_sub (int 0) (int 0)"
    by (rule Convert_nth) simp_all
  then have b0: "buffer_of (Convert epd0 img_sub) ! 0 = 0x00"
    by (simp add: Convert_byte_def pixel_mask_def Convert_bit_img_sub PanelSetting_def)
  have "buffer_of (Convert epd0 img_sub) ! (0 * 100 + 1) = Convert_byte img_sub (int 0) (int 1)"
    by (rule Convert_nth) simp_all
  then have b1: "buffer_of (Convert epd0 img_sub) ! 1 = 0xFF"
    by (simp add: Convert_byte_def pixel_mask_def Convert_bit_img_sub AutoMeasurementVcom_def PanelSetting_def)
  have rest: "\<not> Point_In 0 0 (Bounds img_sub) \<and> Dx (Bounds img_sub) < Epd7in5V2Width \<and>
     Convert_bit img_sub 0 0 = 0 \<and> Point_In 8 0 (Bounds img_sub) \<and>
     At img_sub 8 0 = color_White \<and> At img_sub_black 8 0 = color_Black"
    by (simp add: Point_In_def img_sub_def img_sub_black_def Dx_def Epd7in5V2Width_def
          Convert_bit_img_sub [unfolded img_sub_def])
  show ?thesis
    using b0 b1 rest Convert_img_sub_same by blast
qed

subsection \<open>Claim C8\<close>

text \<open>
  Claim C8. \<^verbatim>\<open>Clear\<close> sends the data-start command, then exactly
  4 times bytes-per-row times rows (192000) data bytes, all \<open>0x33\<close>, then the
  display-refresh command, waits 100 ms and busy-waits: absent platform faults it is the
  busy wait run after exactly these events, and once the busy line is released (after
  \<open>n\<close> low reads) it returns \<^verbatim>\<open>nil\<close>.
\<close>

theorem C8_Clear_sequence:
  assumes "nofault w" "geometry e"
  shows "Clear e w =
           waitUntilIdle e
             (emit (command_frame e DataStartTransmission1 @
                    data_frames e (replicate (4 * nat (widthByte e) * nat (heightByte e)) 0x33) @
                    command_frame e DisplayRefresh @ [TimeSleep 100]) w) \<and>
         4 * nat (widthByte e) * nat (heightByte e) = 192000 \<and>
         (released_after w n \<longrightarrow>
          Clear e w =
            Some (None,
              emit (command_frame e DataStartTransmission1 @
                    data_frames e (replicate (4 * nat (widthByte e) * nat (heightByte e)) 0x33) @
                    command_frame e DisplayRefresh @ [TimeSleep 100] @ wait_events e n)
                (skip_reads (Suc n) w)))"
proof -
  have n: "4 * nat (widthByte e) * nat (heightByte e) = nat (heightByte e) * (nat (widthByte e) * 4)"
    by simp
  have c: "Clear e w =
           waitUntilIdle e
             (emit (command_frame e DataStartTransmission1 @
                    data_frames e (replicate (4 * nat (widthByte e) * nat (heightByte e)) 0x33) @
                    command_frame e DisplayRefresh @ [TimeSleep 100]) w)"
    unfolding n using assms(1) by (rule Clear_nofault)
  moreover have "4 * nat (widthByte e) * nat (heightByte e) = 192000"
    using assms(2) by (simp add: geometry_simps)
  moreover have "Clear e w =
            Some (None,
              emit (command_frame e DataStartTransmission1 @
                    data_frames e (replicate (4 * nat (widthByte e) * nat (heightByte e)) 0x33) @
                    command_frame e DisplayRefresh @ [TimeSleep 100] @ wait_events e n)
                (skip_reads (Suc n) w))" if "released_after w n"
    unfolding c using that by (simp add: waitUntilIdle_released skip_emit)
  ultimately show ?thesis
    by blast
qed

theorem C8_Clear_sequence_witness:
  "Clear epd0 world0 =
     Some (None,
       emit (command_frame epd0 DataStartTransmission1 @ data_frames epd0 (replicate 192000 0x33) @
             command_frame epd0 DisplayRefresh @ [TimeSleep 100] @ wait_events epd0 0) world0)"
  using C8_Clear_sequence [of world0 epd0 0, THEN conjunct2, THEN conjunct2]
  by (simp add: geometry_simps)

subsection \<open>Claim C9\<close>

text \<open>
  Claim C9. For every byte sent, \<^verbatim>\<open>sendCommand\<close> drives the data/command-select line
  low and \<^verbatim>\<open>sendData\<close> drives it high; each then drives chip-select low, exchanges
  exactly one byte over the channel (no response is read) and drives chip-select back
  high, in that order. The four platform calls must succeed; nothing else is assumed of
  the world.
\<close>

theorem C9_transport_framing:
  assumes "\<not> faults w 0" "\<not> faults w 1" "\<not> faults w 2" "\<not> faults w 3"
  shows "sendCommand e cmd w =
           Some (None, w\<lparr>trace := trace w @ [PinOut (dc e) Low, PinOut (cs e) Low, ConnTx [cmd], PinOut (cs e) High],
                          faults := (\<lambda>n. faults w (n + 4))\<rparr>) \<and>
         sendData e d w =
           Some (None, w\<lparr>trace := trace w @ [PinOut (dc e) High, PinOut (cs e) Low, ConnTx [d], PinOut (cs e) High],
                          faults := (\<lambda>n. faults w (n + 4))\<rparr>)"
  using assms
  by (simp add: sendCommand_def sendData_def pin_Out_def conn_Tx_def fallible_def emit_def Let_def
        numeral_eq_Suc)

theorem C9_transport_framing_witness:
  "sendCommand epd0 0x12 world0 =
     Some (None, world0\<lparr>trace := [PinOut ''GPIO25'' Low, PinOut ''GPIO8'' Low, ConnTx [0x12], PinOut ''GPIO8'' High]\<rparr>) \<and>
   sendData epd0 0x33 world0 =
     Some (None, world0\<lparr>trace := [PinOut ''GPIO25'' High, PinOut ''GPIO8'' Low, ConnTx [0x33], PinOut ''GPIO8'' High]\<rparr>)"
  using C9_transport_framing [of world0 epd0 "0x12" "0x33"]
  by (simp add: world0_def epd0_def)

subsection \<open>Claim C10\<close>

text \<open>
  Claim C10. \<^verbatim>\<open>Display\<close> complements each device-buffer byte and emits its eight bits,
  most significant first, as eight nibbles packed two per data byte; a buffer bit 1
  (white) becomes the nibble \<open>0x3\<close> and a bit 0 (black) the nibble \<open>0x0\<close>
  (\<open>nibble x k\<close> is \<open>0x3\<close> when bit \<open>k\<close> of the buffer byte \<open>x\<close> is set, else \<open>0x0\<close>). So
  every data byte sent after the data-start command is one of \<open>0x00\<close>, \<open>0x03\<close>,
  \<open>0x30\<close>, \<open>0x33\<close>.
\<close>

theorem C10_Display_expansion:
  assumes "nofault w" "geometry e" "length img = 48000"
  shows "\<exists>ds. Display e img w =
            seq [waitUntilIdle e, log_Println ''End e-paper display'']
              (emit (LogPrintln ''Start e-paper display'' # command_frame e DataStartTransmission1 @
                     data_frames e ds @
                     LogPrintln ''End e-paper display image process'' #
                     command_frame e DisplayRefresh @ [TimeSleep 100]) w) \<and>
          ds = concat (map (\<lambda>x. [push_bit 4 (nibble x 7) OR nibble x 6,
                                   push_bit 4 (nibble x 5) OR nibble x 4,
                                   push_bit 4 (nibble x 3) OR nibble x 2,
                                   push_bit 4 (nibble x 1) OR nibble x 0]) img) \<and>
          set ds \<subseteq> {0x00, 0x03, 0x30, 0x33} \<and>
          Display_bits e 0 (NOT y) w =
            Some (None, emit (data_frames e [push_bit 4 (nibble y 7) OR nibble y 6,
                                             push_bit 4 (nibble y 5) OR nibble y 4,
                                             push_bit 4 (nibble y 3) OR nibble y 2,
                                             push_bit 4 (nibble y 1) OR nibble y 0]) w)"
proof -
  have d: "Display e img w =
            seq [waitUntilIdle e, log_Println ''End e-paper display'']
              (emit (LogPrintln ''Start e-paper display'' # command_frame e DataStartTransmission1 @
                     data_frames e (concat (map expansion img)) @
                     LogPrintln ''End e-paper display image process'' #
                     command_frame e DisplayRefresh @ [TimeSleep 100]) w)"
    using assms Display_nofault [of w e img] by simp
  have ex: "expansion = (\<lambda>x. [push_bit 4 (nibble x 7) OR nibble x 6,
                                   push_bit 4 (nibble x 5) OR nibble x 4,
                                   push_bit 4 (nibble x 3) OR nibble x 2,
                                   push_bit 4 (nibble x 1) OR nibble x 0])"
    by (rule ext) (simp add: expansion_def)
  have b: "Display_bits e 0 (NOT y) w = Some (None, emit (data_frames e (expansion y)) w)"
    using sendsD [OF sends_Display_bits assms(1)] .
  show ?thesis
    using d b set_concat_expansion [of img]
    unfolding ex by (intro exI conjI) (assumption | rule refl)+
qed

theorem C10_Display_expansion_witness:
  "\<exists>ds. Display epd0 (replicate 48000 0x0F) world0 =
            seq [waitUntilIdle epd0, log_Println ''End e-paper display'']
              (emit (LogPrintln ''Start e-paper display'' # command_frame epd0 DataStartTransmission1 @
                     data_frames epd0 ds @
                     LogPrintln ''End e-paper display image process'' #
                     command_frame epd0 DisplayRefresh @ [TimeSleep 100]) world0) \<and>
          ds = concat (map (\<lambda>x. [push_bit 4 (nibble x 7) OR nibble x 6,
                                   push_bit 4 (nibble x 5) OR nibble x 4,
                                   push_bit 4 (nibble x 3) OR nibble x 2,
                                   push_bit 4 (nibble x 1) OR nibble x 0]) (replicate 48000 0x0F)) \<and>
          set ds \<subseteq> {0x00, 0x03, 0x30, 0x33} \<and>
          Display_bits epd0 0 (NOT 0x0F) world0 =
            Some (None, emit (data_frames epd0 [push_bit 4 (nibble 0x0F 7) OR nibble 0x0F 6,
                                             push_bit 4 (nibble 0x0F 5) OR nibble 0x0F 4,
                                             push_bit 4 (nibble 0x0F 3) OR nibble 0x0F 2,
                                             push_bit 4 (nibble 0x0F 1) OR nibble 0x0F 0]) world0)"
  by (rule C10_Display_expansion) simp_all

end
